theory Spec2Isabelle
  imports Main "HOL-Library.Sublist" "HOL-Library.AList"
begin

section \<open>JavaScript strings\<close>

text \<open>
  A JavaScript string is modelled as a \<^typ>\<open>string\<close>: one \<^typ>\<open>char\<close> per code unit.
  The operations below are the \<^verbatim>\<open>String.prototype\<close> and \<^verbatim>\<open>Array.prototype\<close>
  methods that \<^verbatim>\<open>src/index.js\<close> calls, each under the name it has there.
\<close>

definition startsWith :: "string \<Rightarrow> string \<Rightarrow> bool" where
  "startsWith s p = (take (length p) s = p)"

definition endsWith :: "string \<Rightarrow> string \<Rightarrow> bool" where
  "endsWith s p = (length p \<le> length s \<and> drop (length s - length p) s = p)"

text \<open>\<^verbatim>\<open>s.replace(/\/$/, '')\<close>: without the \<^verbatim>\<open>m\<close> flag \<^verbatim>\<open>$\<close> matches at the end of
  the input only, so at most the last character is removed.\<close>

definition strip_trailing_slash :: "string \<Rightarrow> string" where
  "strip_trailing_slash s = (if s \<noteq> [] \<and> last s = CHR ''/'' then butlast s else s)"

text \<open>\<^verbatim>\<open>s.split('/')\<close>: the pieces between the separators; the empty string gives one
  empty piece.\<close>

fun str_split :: "char \<Rightarrow> string \<Rightarrow> string list" where
  "str_split c [] = [[]]"
| "str_split c (x # xs) =
     (if x = c then [] # str_split c xs
      else (case str_split c xs of
              y # ys \<Rightarrow> (x # y) # ys
            | [] \<Rightarrow> [[x]]))"

text \<open>\<^verbatim>\<open>parts.join('/')\<close>.\<close>

fun str_join :: "string \<Rightarrow> string list \<Rightarrow> string" where
  "str_join sep [] = []"
| "str_join sep [x] = x"
| "str_join sep (x # y # ys) = x @ sep @ str_join sep (y # ys)"

text \<open>\<^verbatim>\<open>parts.indexOf(x)\<close>: the first index holding \<open>x\<close>, or \<open>-1\<close>.\<close>

fun indexOf :: "'a list \<Rightarrow> 'a \<Rightarrow> int" where
  "indexOf [] x = -1"
| "indexOf (y # ys) x =
     (if y = x then 0 else (let i = indexOf ys x in if i = -1 then -1 else i + 1))"

text \<open>\<^verbatim>\<open>parts.slice(0, n)\<close> for an end index \<open>n \<ge> 0\<close>.\<close>

definition slice0 :: "'a list \<Rightarrow> int \<Rightarrow> 'a list" where
  "slice0 xs n = take (nat n) xs"

text \<open>\<^verbatim>\<open>pathname.match(/\/deployments\/([^/]+)/)\<close>, reduced to its capture group: the
  leftmost place where \<^verbatim>\<open>/deployments/\<close> is followed by at least one character other
  than a slash, and the longest run of such characters there.\<close>

fun deploymentMatch :: "string \<Rightarrow> string option" where
  "deploymentMatch [] = None"
| "deploymentMatch (c # cs) =
     (if startsWith (c # cs) ''/deployments/''
         \<and> takeWhile (\<lambda>x. x \<noteq> CHR ''/'') (drop 13 (c # cs)) \<noteq> []
      then Some (takeWhile (\<lambda>x. x \<noteq> CHR ''/'') (drop 13 (c # cs)))
      else deploymentMatch cs)"

section \<open>The platform's URL class\<close>

text \<open>
  \<^verbatim>\<open>parseAzureEndpoint\<close> and \<^verbatim>\<open>testConnection\<close> call the runtime's \<^verbatim>\<open>URL\<close> class, which
  is not code of the repository. It is modelled after the WHATWG URL Standard as far as
  the program observes it: the URL record with its path, query and fragment, the
  \<^verbatim>\<open>pathname\<close> getter and setter, the \<^verbatim>\<open>search\<close> getter and setter,
  \<^verbatim>\<open>searchParams.get\<close> and the serialiser behind \<^verbatim>\<open>toString()\<close>.
\<close>

datatype url_path = Opaque string | Segments "string list"

record URL =
  url_scheme :: string
  url_authority :: "string option"
  url_path :: url_path
  url_query :: "string option"
  url_fragment :: "string option"
  url_params :: "(string \<times> string) list"

text \<open>
  \<open>url_authority\<close> is the serialised user name, password, host and port (what stands between
  \<^verbatim>\<open>//\<close> and the path), \<open>None\<close> when the host is null. \<open>url_params\<close> is the list of the
  URL's query object (\<^verbatim>\<open>searchParams\<close>): the decoded name-value pairs of the query.
\<close>

definition special_scheme :: "string \<Rightarrow> bool" where
  "special_scheme s = (s \<in> {''ftp'', ''file'', ''http'', ''https'', ''ws'', ''wss''})"

subsection \<open>The constructor\<close>

definition ascii_alpha :: "char \<Rightarrow> bool" where
  "ascii_alpha c = (c \<in> set ''abcdefghijklmnopqrstuvwxyzABCDEFGHIJKLMNOPQRSTUVWXYZ'')"

definition scheme_char :: "char \<Rightarrow> bool" where
  "scheme_char c = (ascii_alpha c \<or> c \<in> set ''0123456789+-.'')"

definition c0_or_space :: "char \<Rightarrow> bool" where
  "c0_or_space c = ((of_char c :: nat) \<le> 32)"

definition tab_or_newline :: "char \<Rightarrow> bool" where
  "tab_or_newline c = ((of_char c :: nat) \<in> {9, 10, 13})"

text \<open>The basic URL parser first strips leading and trailing C0 controls and spaces, then
  removes every tab and newline.\<close>

definition url_preprocess :: "string \<Rightarrow> string" where
  "url_preprocess s =
     filter (\<lambda>c. \<not> tab_or_newline c)
       (rev (dropWhile c0_or_space (rev (dropWhile c0_or_space s))))"

text \<open>Scheme start state and scheme state: the input has a scheme when it starts with a
  letter, followed by letters, digits, \<^verbatim>\<open>+\<close>, \<^verbatim>\<open>-\<close> or \<^verbatim>\<open>.\<close>, followed by a colon.\<close>

definition has_scheme :: "string \<Rightarrow> bool" where
  "has_scheme s =
     (case s of
        [] \<Rightarrow> False
      | c # cs \<Rightarrow>
          ascii_alpha c \<and>
          (case dropWhile scheme_char cs of [] \<Rightarrow> False | d # _ \<Rightarrow> d = CHR '':''))"

text \<open>
  \<^verbatim>\<open>new URL(input)\<close>, with no base URL. An input without a scheme ends in the parser's
  no-scheme state, which fails when there is no base: the constructor throws. This part
  is modelled. What the parser does with an input that has a scheme (host parsing,
  percent-encoding, building the query object) is the parameter \<open>platform\<close>; \<open>None\<close> is a
  thrown \<^verbatim>\<open>TypeError\<close>.
\<close>

definition URL_new :: "(string \<Rightarrow> URL option) \<Rightarrow> string \<Rightarrow> URL option" where
  "URL_new platform input =
     (if has_scheme (url_preprocess input) then platform input else None)"

subsection \<open>Getters and the serialiser\<close>

text \<open>The URL path serialiser, which the \<^verbatim>\<open>pathname\<close> getter returns.\<close>

definition pathname :: "URL \<Rightarrow> string" where
  "pathname u =
     (case url_path u of
        Opaque s \<Rightarrow> s
      | Segments segs \<Rightarrow> concat (map (\<lambda>s. CHR ''/'' # s) segs))"

text \<open>The \<^verbatim>\<open>search\<close> getter: the empty string for a null or empty query, else \<^verbatim>\<open>?\<close>
  and the query.\<close>

definition search :: "URL \<Rightarrow> string" where
  "search u =
     (case url_query u of
        None \<Rightarrow> []
      | Some q \<Rightarrow> if q = [] then [] else CHR ''?'' # q)"

text \<open>\<^verbatim>\<open>url.searchParams.get(name)\<close>: the value of the first pair with that name.\<close>

definition searchParams_get :: "URL \<Rightarrow> string \<Rightarrow> string option" where
  "searchParams_get u name = map_of (url_params u) name"

text \<open>The URL serialiser (\<^verbatim>\<open>toString()\<close>, \<^verbatim>\<open>href\<close>).\<close>

definition toString :: "URL \<Rightarrow> string" where
  "toString u =
     url_scheme u @ '':'' @
     (case url_authority u of
        Some a \<Rightarrow> ''//'' @ a
      | None \<Rightarrow>
          (case url_path u of
             Segments (s1 # s2 # rest) \<Rightarrow> if s1 = [] then ''/.'' else []
           | _ \<Rightarrow> [])) @
     pathname u @
     (case url_query u of Some q \<Rightarrow> CHR ''?'' # q | None \<Rightarrow> []) @
     (case url_fragment u of Some f \<Rightarrow> CHR ''#'' # f | None \<Rightarrow> [])"

subsection \<open>Setters\<close>

text \<open>\<^verbatim>\<open>url.search = ''\<close>: the query becomes null and the query object's list is
  emptied. (The program assigns no other value.)\<close>

definition clear_search :: "URL \<Rightarrow> URL" where
  "clear_search u = u\<lparr>url_query := None, url_params := []\<rparr>"

text \<open>The path percent-encode set, for code units below 256: the C0 controls, everything
  above \<^verbatim>\<open>~\<close>, and space, \<^verbatim>\<open>"\<close>, \<^verbatim>\<open>#\<close>, \<^verbatim>\<open><\<close>, \<^verbatim>\<open>>\<close>, \<^verbatim>\<open>?\<close>, \<^verbatim>\<open>^\<close>, the backquote, \<^verbatim>\<open>{\<close>
  and \<^verbatim>\<open>}\<close>.\<close>

definition path_encode_set :: "char \<Rightarrow> bool" where
  "path_encode_set c =
     ((of_char c :: nat) \<le> 31 \<or> (of_char c :: nat) > 126 \<or>
      c \<in> {CHR 0x20, CHR 0x22, CHR 0x23, CHR 0x3C, CHR 0x3E,
            CHR 0x3F, CHR 0x5E, CHR 0x60, CHR 0x7B, CHR 0x7D})"

definition hex_digit :: "nat \<Rightarrow> char" where
  "hex_digit n = ''0123456789ABCDEF'' ! (n mod 16)"

definition percent_byte :: "nat \<Rightarrow> string" where
  "percent_byte b = [CHR ''%'', hex_digit (b div 16), hex_digit b]"

text \<open>UTF-8 percent-encoding of one code unit below 256: one byte up to 127, two bytes
  above.\<close>

definition percent_encode :: "char \<Rightarrow> string" where
  "percent_encode c =
     (let n = (of_char c :: nat) in
      if \<not> path_encode_set c then [c]
      else if n < 128 then percent_byte n
      else percent_byte (192 + n div 64) @ percent_byte (128 + n mod 64))"

definition single_dot :: "string \<Rightarrow> bool" where
  "single_dot s = (s \<in> {''.'', ''%2e'', ''%2E''})"

definition double_dot :: "string \<Rightarrow> bool" where
  "double_dot s =
     (s \<in> {''..'', ''.%2e'', ''.%2E'', ''%2e.'', ''%2E.'',
            ''%2e%2e'', ''%2e%2E'', ''%2E%2e'', ''%2E%2E''})"

definition windows_drive_letter :: "string \<Rightarrow> bool" where
  "windows_drive_letter s =
     (case s of [a, b] \<Rightarrow> ascii_alpha a \<and> (b = CHR '':'' \<or> b = CHR ''|'') | _ \<Rightarrow> False)"

definition shorten_path :: "string \<Rightarrow> string list \<Rightarrow> string list" where
  "shorten_path sch p =
     (if sch = ''file'' \<and> length p = 1 \<and> windows_drive_letter (hd p) \<and> hd p ! 1 = CHR '':''
      then p else butlast p)"

text \<open>The end of a segment in the path state; \<open>slash\<close> says that a separator (and not the
  end of the input) ended it.\<close>

definition end_segment :: "string \<Rightarrow> string list \<Rightarrow> string \<Rightarrow> bool \<Rightarrow> string list" where
  "end_segment sch p buf slash =
     (if double_dot buf then
        (if slash then shorten_path sch p else shorten_path sch p @ [[]])
      else if single_dot buf then
        (if slash then p else p @ [[]])
      else
        p @ [if sch = ''file'' \<and> p = [] \<and> windows_drive_letter buf
             then [hd buf, CHR '':''] else buf])"

text \<open>The path state under a state override: \<^verbatim>\<open>?\<close> and \<^verbatim>\<open>#\<close> end nothing, they are
  percent-encoded.\<close>

fun path_state :: "string \<Rightarrow> string list \<Rightarrow> string \<Rightarrow> string \<Rightarrow> string list" where
  "path_state sch p buf [] = end_segment sch p buf False"
| "path_state sch p buf (c # cs) =
     (if c = CHR ''/'' \<or> (special_scheme sch \<and> c = CHR 0x5C)
      then path_state sch (end_segment sch p buf True) [] cs
      else path_state sch p (buf @ percent_encode c) cs)"

text \<open>The path start state under a state override, on an emptied path.\<close>

definition path_start_state :: "URL \<Rightarrow> string \<Rightarrow> string list" where
  "path_start_state u v =
     (if special_scheme (url_scheme u) then
        (case v of
           c # cs \<Rightarrow>
             if c = CHR ''/'' \<or> c = CHR 0x5C then path_state (url_scheme u) [] [] cs
             else path_state (url_scheme u) [] [] v
         | [] \<Rightarrow> path_state (url_scheme u) [] [] [])
      else
        (case v of
           c # cs \<Rightarrow>
             if c = CHR ''/'' then path_state (url_scheme u) [] [] cs
             else path_state (url_scheme u) [] [] v
         | [] \<Rightarrow> if url_authority u = None then [[]] else []))"

text \<open>\<^verbatim>\<open>url.pathname = v\<close>: nothing happens on an opaque path; otherwise the path is
  emptied and \<open>v\<close>, without its tabs and newlines, is parsed from the path start state.\<close>

definition set_pathname :: "URL \<Rightarrow> string \<Rightarrow> URL" where
  "set_pathname u v =
     (case url_path u of
        Opaque s \<Rightarrow> u
      | Segments segs \<Rightarrow>
          u\<lparr>url_path := Segments (path_start_state u (filter (\<lambda>c. \<not> tab_or_newline c) v))\<rparr>)"

subsection \<open>Paths as the parser leaves them\<close>

text \<open>
  A segment of a parsed path holds no separator and nothing from the path
  percent-encode set (the parser has encoded that), and is no dot segment (the parser
  has resolved those); in a \<^verbatim>\<open>file\<close> URL a leading drive letter has its colon.
\<close>

definition clean_segment :: "string \<Rightarrow> string \<Rightarrow> bool" where
  "clean_segment sch seg =
     (CHR ''/'' \<notin> set seg \<and> (special_scheme sch \<longrightarrow> CHR 0x5C \<notin> set seg)
      \<and> (\<forall>c \<in> set seg. \<not> path_encode_set c)
      \<and> \<not> single_dot seg \<and> \<not> double_dot seg)"

definition parsed_path :: "string \<Rightarrow> string list \<Rightarrow> bool" where
  "parsed_path sch segs =
     ((\<forall>seg \<in> set segs. clean_segment sch seg)
      \<and> (sch = ''file'' \<and> segs \<noteq> [] \<and> windows_drive_letter (hd segs)
             \<longrightarrow> hd segs ! 1 = CHR '':''))"

text \<open>The path up to and including its first \<^verbatim>\<open>openai\<close> segment; the single segment
  \<^verbatim>\<open>openai\<close> when there is none.\<close>

definition kept_segments :: "string list \<Rightarrow> string list" where
  "kept_segments segs =
     (if ''openai'' \<in> set segs
      then takeWhile (\<lambda>s. s \<noteq> ''openai'') segs @ [''openai'']
      else [''openai''])"

section \<open>The endpoint parser\<close>

record defaults =
  dflt_deployment :: string
  dflt_apiVersion :: string

record endpoint =
  baseUrl :: string
  deployment :: string
  apiVersion :: string

text \<open>
  \<^verbatim>\<open>parseAzureEndpoint(input, defaults)\<close>. Inside the \<^verbatim>\<open>try\<close> block only the constructor
  can throw, so the \<^verbatim>\<open>catch\<close> branch is the \<open>None\<close> case of \<^const>\<open>URL_new\<close>.
\<close>

definition parseAzureEndpoint ::
  "(string \<Rightarrow> URL option) \<Rightarrow> string \<Rightarrow> defaults \<Rightarrow> endpoint" where
  "parseAzureEndpoint platform input dflt =
     (case URL_new platform input of
        Some url \<Rightarrow>
          (let dep = (case deploymentMatch (pathname url) of
                        Some d \<Rightarrow> d
                      | None \<Rightarrow> dflt_deployment dflt);
               ver = (case searchParams_get url ''api-version'' of
                        Some v \<Rightarrow> if v \<noteq> [] then v else dflt_apiVersion dflt
                      | None \<Rightarrow> dflt_apiVersion dflt);
               pathParts = str_split CHR ''/'' (pathname url);
               openaiIndex = indexOf pathParts ''openai'';
               url1 = (if openaiIndex \<noteq> -1
                       then set_pathname url
                              (str_join ''/'' (slice0 pathParts (openaiIndex + 1)))
                       else set_pathname url ''/openai'');
               url2 = clear_search url1
           in \<lparr>baseUrl = strip_trailing_slash (toString url2),
               deployment = dep, apiVersion = ver\<rparr>)
      | None \<Rightarrow>
          (let cleaned = strip_trailing_slash input;
               cleaned1 = (if \<not> startsWith cleaned ''https://''
                           then ''https://'' @ cleaned else cleaned);
               cleaned2 = (if \<not> endsWith cleaned1 ''/openai''
                           then cleaned1 @ ''/openai'' else cleaned1)
           in \<lparr>baseUrl = cleaned2,
               deployment = dflt_deployment dflt,
               apiVersion = dflt_apiVersion dflt\<rparr>))"


text \<open>The defaults that \<^verbatim>\<open>fetchDefaults\<close> starts from.\<close>

definition hardcoded_defaults :: defaults where
  "hardcoded_defaults =
     \<lparr>dflt_deployment = ''model-router'', dflt_apiVersion = ''2025-01-01-preview''\<rparr>"

section \<open>Configuration documents\<close>

text \<open>
  A value as \<^verbatim>\<open>JSON.parse\<close> builds it and as the program updates it in memory. A number
  is kept as the text \<^verbatim>\<open>String(n)\<close> gives for it (the program computes with none). An
  object is the list of its own properties in enumeration order. An array carries its
  elements and, second, the named properties assigned to it (an array is an object: the
  program's assignments succeed on it).
\<close>

datatype jsval =
    JNull
  | JBool bool
  | JNum string
  | JStr string
  | JArr "jsval list" "(string \<times> jsval) list"
  | JObj "(string \<times> jsval) list"

datatype js_error = TypeError

text \<open>Truthiness, as \<^verbatim>\<open>!x\<close>, \<^verbatim>\<open>x || y\<close> and \<^verbatim>\<open>if (x)\<close> read it.\<close>

fun truthy :: "jsval \<Rightarrow> bool" where
  "truthy JNull = False"
| "truthy (JBool b) = b"
| "truthy (JNum n) = (n \<noteq> ''0'' \<and> n \<noteq> ''NaN'')"
| "truthy (JStr s) = (s \<noteq> [])"
| "truthy (JArr es ps) = True"
| "truthy (JObj ps) = True"

text \<open>A value that may be \<^verbatim>\<open>undefined\<close> is a \<^typ>\<open>jsval option\<close>.\<close>

definition truthy_opt :: "jsval option \<Rightarrow> bool" where
  "truthy_opt v = (case v of None \<Rightarrow> False | Some x \<Rightarrow> truthy x)"

text \<open>
  \<^verbatim>\<open>v.k\<close> for a value that is neither \<^verbatim>\<open>null\<close> nor \<^verbatim>\<open>undefined\<close>, and a property name
  that is no array index, not \<^verbatim>\<open>length\<close> and not inherited (the names the program reads
  are \<^verbatim>\<open>provider\<close>, \<^verbatim>\<open>azure\<close>, \<^verbatim>\<open>options\<close>, \<^verbatim>\<open>models\<close>, \<^verbatim>\<open>baseURL\<close>, \<^verbatim>\<open>apiKey\<close>,
  \<^verbatim>\<open>apiVersion\<close> and \<^verbatim>\<open>mcp\<close>): a primitive has no such property.
\<close>

fun get_prop :: "jsval \<Rightarrow> string \<Rightarrow> jsval option" where
  "get_prop (JObj ps) k = map_of ps k"
| "get_prop (JArr es ps) k = map_of ps k"
| "get_prop v k = None"

text \<open>\<^verbatim>\<open>v?.k\<close>.\<close>

definition optional_get :: "jsval option \<Rightarrow> string \<Rightarrow> jsval option" where
  "optional_get v k =
     (case v of
        None \<Rightarrow> None
      | Some JNull \<Rightarrow> None
      | Some x \<Rightarrow> get_prop x k)"

text \<open>\<^verbatim>\<open>x || y\<close>.\<close>

definition js_or :: "jsval option \<Rightarrow> jsval \<Rightarrow> jsval" where
  "js_or x y = (case x of None \<Rightarrow> y | Some v \<Rightarrow> if truthy v then v else y)"

text \<open>
  \<^verbatim>\<open>v.k = x\<close> in strict mode (the file is an ES module), for the same kind of property
  name: an existing property keeps its place, a new one goes last, and the assignment
  throws on a primitive.
\<close>

fun set_prop :: "jsval \<Rightarrow> string \<Rightarrow> jsval \<Rightarrow> js_error + jsval" where
  "set_prop (JObj ps) k x = Inr (JObj (AList.update k x ps))"
| "set_prop (JArr es ps) k x = Inr (JArr es (AList.update k x ps))"
| "set_prop v k x = Inl TypeError"

fun decimal :: "nat \<Rightarrow> string" where
  "decimal n =
     (if n < 10 then [''0123456789'' ! n]
      else decimal (n div 10) @ [''0123456789'' ! (n mod 10)])"

text \<open>\<^verbatim>\<open>Object.keys(v)\<close> for a value that is neither \<^verbatim>\<open>null\<close> nor \<^verbatim>\<open>undefined\<close>: the
  indices of an array or a string come first.\<close>

fun Object_keys :: "jsval \<Rightarrow> string list" where
  "Object_keys (JObj ps) = map fst ps"
| "Object_keys (JArr es ps) = map decimal [0..<length es] @ map fst ps"
| "Object_keys (JStr s) = map decimal [0..<length s]"
| "Object_keys v = []"

record settings =
  s_baseUrl :: jsval
  s_apiKey :: jsval
  s_deployment :: string
  s_apiVersion :: jsval

text \<open>
  \<^verbatim>\<open>getExistingAzureSettings(config)\<close>; \<open>None\<close> is the \<^verbatim>\<open>null\<close> it returns. \<open>config\<close> is
  what \<^verbatim>\<open>loadExistingConfig\<close> returned, \<^const>\<open>JNull\<close> included.
\<close>

definition getExistingAzureSettings :: "jsval \<Rightarrow> settings option" where
  "getExistingAzureSettings config =
     (let azure = optional_get (optional_get (Some config) ''provider'') ''azure'' in
      if \<not> truthy_opt (optional_get azure ''options'') then None
      else
        (case (azure, optional_get azure ''options'') of
           (Some az, Some opts) \<Rightarrow>
             (let modelName =
                    (case Object_keys (js_or (get_prop az ''models'') (JObj [])) of
                       k # ks \<Rightarrow> if k \<noteq> [] then k else ''model-router''
                     | [] \<Rightarrow> ''model-router'')
              in Some \<lparr>s_baseUrl = js_or (get_prop opts ''baseURL'') (JStr []),
                      s_apiKey = js_or (get_prop opts ''apiKey'') (JStr []),
                      s_deployment = modelName,
                      s_apiVersion = js_or (get_prop opts ''apiVersion'')
                                       (JStr ''2025-01-01-preview'')\<rparr>)
         | _ \<Rightarrow> None))"

text \<open>
  \<^verbatim>\<open>loadExistingConfig()\<close>. The file content has the type \<open>'f\<close>; \<open>disk\<close> is \<open>None\<close> when
  the file does not exist. \<open>parse\<close> is the platform's \<^verbatim>\<open>JSON.parse\<close>, \<open>None\<close> when it
  throws.
\<close>

definition loadExistingConfig :: "('f \<Rightarrow> jsval option) \<Rightarrow> 'f option \<Rightarrow> jsval" where
  "loadExistingConfig parse disk =
     (case disk of
        None \<Rightarrow> JNull
      | Some content \<Rightarrow> (case parse content of Some v \<Rightarrow> v | None \<Rightarrow> JNull))"

text \<open>The provider entry that the merge step of \<^verbatim>\<open>main\<close> writes.\<close>

definition azure_entry :: "string \<Rightarrow> string \<Rightarrow> string \<Rightarrow> string \<Rightarrow> jsval" where
  "azure_entry baseUrl' apiKey' deployment' apiVersion' =
     JObj [(''npm'', JStr ''@ai-sdk/azure''),
           (''name'', JStr ''Azure OpenAI''),
           (''options'',
              JObj [(''baseURL'', JStr baseUrl'),
                    (''apiKey'', JStr apiKey'),
                    (''useDeploymentBasedUrls'', JBool True),
                    (''apiVersion'', JStr apiVersion')]),
           (''models'',
              JObj [(deployment',
                     JObj [(''name'', JStr deployment'),
                           (''limit'', JObj [(''context'', JNum ''200000''),
                                             (''output'', JNum ''16384'')])])])]"

text \<open>
  The merge step of \<^verbatim>\<open>main\<close> (from \<^verbatim>\<open>const config = existingConfig || {}\<close> to the
  assignment of \<^verbatim>\<open>config.provider.azure\<close>). The loaded document is a tree, so the
  assignment through \<^verbatim>\<open>config.provider\<close> is an update of that property of \<open>config\<close>.
\<close>

definition merge_step ::
  "jsval \<Rightarrow> string \<Rightarrow> string \<Rightarrow> string \<Rightarrow> string \<Rightarrow> js_error + jsval" where
  "merge_step existingConfig baseUrl' apiKey' deployment' apiVersion' =
     (let config = (if truthy existingConfig then existingConfig else JObj []) in
      case set_prop config ''$schema'' (JStr ''https://opencode.ai/config.json'') of
        Inl e \<Rightarrow> Inl e
      | Inr config1 \<Rightarrow>
          (case set_prop config1 ''model'' (JStr (''azure/'' @ deployment')) of
             Inl e \<Rightarrow> Inl e
           | Inr config2 \<Rightarrow>
               (let provider = js_or (get_prop config2 ''provider'') (JObj []) in
                case set_prop config2 ''provider'' provider of
                  Inl e \<Rightarrow> Inl e
                | Inr config3 \<Rightarrow>
                    (case set_prop provider ''azure''
                            (azure_entry baseUrl' apiKey' deployment' apiVersion') of
                       Inl e \<Rightarrow> Inl e
                     | Inr provider1 \<Rightarrow> set_prop config3 ''provider'' provider1))))"

text \<open>The values that hold properties: an assignment to a property of anything else
  throws.\<close>

fun is_object :: "jsval \<Rightarrow> bool" where
  "is_object (JObj ps) = True"
| "is_object (JArr es ps) = True"
| "is_object v = False"

text \<open>The documents on which the merge step does not throw: \<^verbatim>\<open>existingConfig || {}\<close>
  holds properties, and so does its \<^verbatim>\<open>provider\<close>, when that is truthy.\<close>

definition mergeable :: "jsval \<Rightarrow> bool" where
  "mergeable existingConfig =
     (let config = (if truthy existingConfig then existingConfig else JObj []) in
      is_object config \<and> is_object (js_or (get_prop config ''provider'') (JObj [])))"

text \<open>The elements of an array (a document that is an array keeps them).\<close>

fun elements :: "jsval \<Rightarrow> jsval list" where
  "elements (JArr es ps) = es"
| "elements v = []"

text \<open>The documents whose merged form survives the file: \<^verbatim>\<open>existingConfig || {}\<close> is an
  object that is no array, and so is its \<^verbatim>\<open>provider\<close>, when that is truthy.\<close>

fun plain_object :: "jsval \<Rightarrow> bool" where
  "plain_object (JObj ps) = True"
| "plain_object v = False"

definition plain_document :: "jsval \<Rightarrow> bool" where
  "plain_document existingConfig =
     (let config = (if truthy existingConfig then existingConfig else JObj []) in
      plain_object config \<and> plain_object (js_or (get_prop config ''provider'') (JObj [])))"

text \<open>
  The marketplace entry (\<^verbatim>\<open>config.mcp = config.mcp || {}\<close> and the assignment of
  \<^verbatim>\<open>config.mcp['mcp-marketplace']\<close>). Both stand inside a \<^verbatim>\<open>try\<close> block: when an
  assignment throws, the document is as it was.
\<close>

definition mcp_step :: "jsval \<Rightarrow> string \<Rightarrow> jsval" where
  "mcp_step config mcpPath =
     (let mcp = js_or (get_prop config ''mcp'') (JObj []) in
      case set_prop config ''mcp'' mcp of
        Inl e \<Rightarrow> config
      | Inr config1 \<Rightarrow>
          (case set_prop mcp ''mcp-marketplace''
                  (JObj [(''type'', JStr ''local''),
                         (''command'', JArr [JStr ''node'', JStr mcpPath] [])]) of
             Inl e \<Rightarrow> config1
           | Inr mcp1 \<Rightarrow>
               (case set_prop config1 ''mcp'' mcp1 of
                  Inl e \<Rightarrow> config1
                | Inr config2 \<Rightarrow> config2)))"

text \<open>
  What a JSON text can hold of a value: \<^verbatim>\<open>JSON.stringify\<close> writes the elements of an
  array and none of its named properties, and \<^verbatim>\<open>null\<close> for a number that is not finite.
  A platform whose \<^verbatim>\<open>JSON.parse\<close> undoes its \<^verbatim>\<open>JSON.stringify\<close> up to this image
  satisfies \<open>json_roundtrip\<close>.
\<close>

fun json_image :: "jsval \<Rightarrow> jsval" where
  "json_image JNull = JNull"
| "json_image (JBool b) = JBool b"
| "json_image (JNum n) =
     (if n \<in> {''Infinity'', ''-Infinity'', ''NaN''} then JNull else JNum n)"
| "json_image (JStr s) = JStr s"
| "json_image (JArr es ps) = JArr (map json_image es) []"
| "json_image (JObj ps) = JObj (map (\<lambda>(k, v). (k, json_image v)) ps)"

definition json_roundtrip :: "('f \<Rightarrow> jsval option) \<Rightarrow> (jsval \<Rightarrow> 'f) \<Rightarrow> bool" where
  "json_roundtrip parse stringify = (\<forall>v. parse (stringify v) = Some (json_image v))"

section \<open>Prompts\<close>

text \<open>
  What reaches the program on standard input, one item per prompt: a line, or the
  interrupt key. \<^verbatim>\<open>rl.question\<close> calls back when a line arrives; on the interrupt key
  (the interface closes) or at the end of the input it never does, and the promise that
  \<^verbatim>\<open>ask\<close> returns stays pending.
\<close>

datatype user_input = Line string | CtrlC

fun question :: "user_input list \<Rightarrow> (string \<times> user_input list) option" where
  "question (Line answer # rest) = Some (answer, rest)"
| "question ins = None"

text \<open>\<^verbatim>\<open>ask(question, defaultValue)\<close> resolves to \<^verbatim>\<open>answer || defaultValue\<close>.\<close>

definition ask :: "string \<Rightarrow> user_input list \<Rightarrow> (string \<times> user_input list) option" where
  "ask defaultValue ins =
     (case question ins of
        None \<Rightarrow> None
      | Some (answer, rest) \<Rightarrow> Some (if answer \<noteq> [] then answer else defaultValue, rest))"

text \<open>\<^verbatim>\<open>existingValue.slice(0, 4) + '...' + existingValue.slice(-4)\<close>, the form of the
  stored key that \<^verbatim>\<open>askPassword\<close> shows.\<close>

definition masked :: "string \<Rightarrow> string" where
  "masked existingValue =
     take 4 existingValue @ ''...'' @ drop (length existingValue - 4) existingValue"

text \<open>What \<^verbatim>\<open>askPassword(question, existingValue)\<close> writes to the terminal.\<close>

definition askPassword_prompt :: "string \<Rightarrow> string \<Rightarrow> string" where
  "askPassword_prompt q existingValue =
     (if existingValue \<noteq> [] then q @ '' ['' @ masked existingValue @ '']: ''
      else q @ '': '')"

datatype 'a prompted = Answered 'a "user_input list" | Exited nat | Unanswered

text \<open>
  \<^verbatim>\<open>askPassword\<close> resolves to \<^verbatim>\<open>password || existingValue\<close>. On a terminal it reads
  keys in raw mode: \<open>Line p\<close> is the text typed up to the Enter key, and the interrupt key
  runs \<^verbatim>\<open>process.exit()\<close>, which ends the process with code 0. Otherwise it reads a
  line through \<^verbatim>\<open>rl.question\<close>.
\<close>

definition askPassword :: "bool \<Rightarrow> string \<Rightarrow> user_input list \<Rightarrow> string prompted" where
  "askPassword tty existingValue ins =
     (if tty then
        (case ins of
           Line password # rest \<Rightarrow>
             Answered (if password \<noteq> [] then password else existingValue) rest
         | CtrlC # rest \<Rightarrow> Exited 0
         | [] \<Rightarrow> Unanswered)
      else
        (case question ins of
           Some (answer, rest) \<Rightarrow>
             Answered (if answer \<noteq> [] then answer else existingValue) rest
         | None \<Rightarrow> Unanswered))"

section \<open>The connectivity probe\<close>

record ProbeResult =
  ok :: bool
  status :: nat
  body :: string

text \<open>What the request does first: it ends with a status and a body, it emits an error,
  or the 15 second timeout fires.\<close>

datatype net_event = Response nat string | ConnError string | Timeout

text \<open>Node refuses a request path that holds a code unit outside the range from
  \<^verbatim>\<open>0x21\<close> to \<^verbatim>\<open>0xFF\<close>, so a space or a control character (the strings here hold
  nothing above \<^verbatim>\<open>0xFF\<close>): \<^verbatim>\<open>https.request\<close> throws. An empty path is not looked
  at, and holds no such code unit.\<close>

definition invalid_path_char :: "char \<Rightarrow> bool" where
  "invalid_path_char c = ((of_char c :: nat) < 33)"

text \<open>Node refuses a header value that holds a control character other than a tab:
  \<^verbatim>\<open>https.request\<close> throws.\<close>

definition invalid_header_char :: "char \<Rightarrow> bool" where
  "invalid_header_char c =
     (((of_char c :: nat) < 32 \<and> (of_char c :: nat) \<noteq> 9) \<or> (of_char c :: nat) = 127)"

text \<open>
  \<^verbatim>\<open>testConnection(endpoint, apiKey, deployment, apiVersion)\<close>. \<open>Inr\<close> is the value the
  promise resolves to. The \<^verbatim>\<open>URL\<close> constructor and \<^verbatim>\<open>https.request\<close> run inside the
  promise's executor, where a throw rejects the promise: \<open>Inl\<close>.
\<close>

definition testConnection ::
  "(string \<Rightarrow> URL option) \<Rightarrow> net_event \<Rightarrow> string \<Rightarrow> string \<Rightarrow> string \<Rightarrow> string
     \<Rightarrow> js_error + ProbeResult" where
  "testConnection platform ev endpoint' apiKey' deployment' apiVersion' =
     (case URL_new platform
             (endpoint' @ ''/deployments/'' @ deployment' @
              ''/chat/completions?api-version='' @ apiVersion') of
        None \<Rightarrow> Inl TypeError
      | Some url \<Rightarrow>
          if \<exists>c \<in> set (pathname url @ search url). invalid_path_char c then Inl TypeError
          else if \<exists>c \<in> set apiKey'. invalid_header_char c then Inl TypeError
          else
            (case ev of
               Response code data \<Rightarrow> Inr \<lparr>ok = (code = 200), status = code, body = data\<rparr>
             | ConnError message \<Rightarrow> Inr \<lparr>ok = False, status = 0, body = message\<rparr>
             | Timeout \<Rightarrow> Inr \<lparr>ok = False, status = 0, body = ''Timeout''\<rparr>))"

section \<open>The setup session\<close>

datatype fs_op = MkdirConfigDir | MkdirMcpDir | WriteConfig

text \<open>
  What a run meets: the flag, the terminal, the configuration file, the platform's JSON
  functions and URL parser, the defaults \<^verbatim>\<open>fetchDefaults\<close> returned, the user's input, the
  outcome of the first and of the second probe request, which file-system calls throw,
  and whether the marketplace package got installed (and where).
\<close>

record 'f env =
  nonInteractive :: bool
  isTTY :: bool
  disk :: "'f option"
  JSON_parse :: "'f \<Rightarrow> jsval option"
  JSON_stringify :: "jsval \<Rightarrow> 'f"
  URL_platform :: "string \<Rightarrow> URL option"
  fetched_defaults :: defaults
  stdin :: "user_input list"
  network :: "nat \<Rightarrow> net_event"
  fs_fails :: "fs_op \<Rightarrow> bool"
  npm_ok :: bool
  mcpPath :: string

text \<open>
  How a run ends: \<open>Exit n\<close> when the process exits with code \<open>n\<close> (\<^verbatim>\<open>process.exit\<close>, the
  handler of a rejected \<^verbatim>\<open>main()\<close>, or the end of \<^verbatim>\<open>main\<close>); \<open>Abandoned\<close> when a prompt
  is never answered; \<open>Unmodelled\<close> when a stored setting that the program uses as a
  string is a truthy value of another type, which is outside this model.
\<close>

datatype outcome = Exit nat | Abandoned | Unmodelled

text \<open>What a run does to the world, in order: network requests, prompts (with the
  question; the password prompt with the masked key it shows) and file-system calls.\<close>

datatype effect =
    FetchDefaults
  | Ask string
  | AskPassword string string
  | TestConnection string string string string
  | Fs fs_op
  | McpInstall
  | BinaryInstall

record 'f run =
  outcome :: outcome
  effects :: "effect list"
  final_disk :: "'f option"

datatype 'a phase =
    Stopped outcome "effect list"
  | Continue 'a "user_input list" "effect list"

record gathered =
  g_baseUrl :: jsval
  g_deployment :: string
  g_apiVersion :: jsval
  g_apiKey :: jsval

text \<open>\<^verbatim>\<open>existingAzure?.baseUrl\<close> and \<^verbatim>\<open>existingAzure?.apiKey\<close>.\<close>

definition opt_field :: "(settings \<Rightarrow> 'a) \<Rightarrow> settings option \<Rightarrow> 'a option" where
  "opt_field f existingAzure = map_option f existingAzure"

text \<open>The prompts for the API key and the deployment, which the last two branches of
  \<^verbatim>\<open>main\<close> share in this order.\<close>

definition gather_key ::
  "bool \<Rightarrow> string \<Rightarrow> user_input list \<Rightarrow> effect list \<Rightarrow> string phase" where
  "gather_key tty existingKey ins tr =
     (let tr1 = tr @ [AskPassword ''API Key'' (if existingKey \<noteq> [] then masked existingKey else [])] in
      case askPassword tty existingKey ins of
        Unanswered \<Rightarrow> Stopped Abandoned tr1
      | Exited n \<Rightarrow> Stopped (Exit n) tr1
      | Answered apiKey' rest \<Rightarrow>
          if apiKey' = [] then Stopped (Exit 1) tr1 else Continue apiKey' rest tr1)"

text \<open>
  The four branches of \<^verbatim>\<open>main\<close> that settle endpoint, key and deployment. A branch that
  would read a field of \<^verbatim>\<open>existingAzure\<close> when it is \<^verbatim>\<open>null\<close> throws; the handler of
  \<^verbatim>\<open>main()\<close> then exits with code 1.
\<close>

definition gather :: "'f env \<Rightarrow> settings option \<Rightarrow> effect list \<Rightarrow> gathered phase" where
  "gather env existingAzure tr =
     (if nonInteractive env \<and> truthy_opt (opt_field s_baseUrl existingAzure)
         \<and> truthy_opt (opt_field s_apiKey existingAzure) then
        (case existingAzure of
           None \<Rightarrow> Stopped (Exit 1) tr
         | Some ex \<Rightarrow>
             Continue \<lparr>g_baseUrl = s_baseUrl ex, g_deployment = s_deployment ex,
                       g_apiVersion = s_apiVersion ex, g_apiKey = s_apiKey ex\<rparr>
               (stdin env) tr)
      else if nonInteractive env \<and> \<not> truthy_opt (opt_field s_baseUrl existingAzure) then
        Stopped (Exit 1) tr
      else if truthy_opt (opt_field s_baseUrl existingAzure) then
        (case existingAzure of
           None \<Rightarrow> Stopped (Exit 1) tr
         | Some ex \<Rightarrow>
             (case question (stdin env) of
                None \<Rightarrow> Stopped Abandoned (tr @ [Ask ''Endpoint''])
              | Some (answer, ins1) \<Rightarrow>
                  (let rawEndpoint = (if answer \<noteq> [] then JStr answer else s_baseUrl ex);
                       parsed = parseAzureEndpoint (URL_platform env) answer
                                  (fetched_defaults env);
                       g = (if rawEndpoint = s_baseUrl ex then
                              \<lparr>g_baseUrl = s_baseUrl ex, g_deployment = s_deployment ex,
                               g_apiVersion = s_apiVersion ex, g_apiKey = JStr []\<rparr>
                            else
                              \<lparr>g_baseUrl = JStr (baseUrl parsed),
                               g_deployment = deployment parsed,
                               g_apiVersion = JStr (apiVersion parsed), g_apiKey = JStr []\<rparr>)
                   in case js_or (Some (s_apiKey ex)) (JStr []) of
                        JStr existingKey \<Rightarrow>
                          (case gather_key (isTTY env) existingKey ins1
                                  (tr @ [Ask ''Endpoint'']) of
                             Stopped out tr1 \<Rightarrow> Stopped out tr1
                           | Continue apiKey' ins2 tr1 \<Rightarrow>
                               if s_deployment ex \<noteq> [] \<and> g_deployment g = s_deployment ex
                               then Continue (g\<lparr>g_apiKey := JStr apiKey'\<rparr>) ins2 tr1
                               else
                                 (case ask (g_deployment g) ins2 of
                                    None \<Rightarrow> Stopped Abandoned (tr1 @ [Ask ''Deployment name''])
                                  | Some (d, ins3) \<Rightarrow>
                                      Continue (g\<lparr>g_apiKey := JStr apiKey', g_deployment := d\<rparr>)
                                        ins3 (tr1 @ [Ask ''Deployment name''])))
                      | other \<Rightarrow> Stopped Unmodelled (tr @ [Ask ''Endpoint'']))))
      else
        (case ask [] (stdin env) of
           None \<Rightarrow> Stopped Abandoned (tr @ [Ask ''Endpoint''])
         | Some (rawEndpoint, ins1) \<Rightarrow>
             if rawEndpoint = [] then Stopped (Exit 1) (tr @ [Ask ''Endpoint''])
             else
               (let parsed = parseAzureEndpoint (URL_platform env) rawEndpoint
                               (fetched_defaults env) in
                case gather_key (isTTY env) [] ins1 (tr @ [Ask ''Endpoint'']) of
                  Stopped out tr1 \<Rightarrow> Stopped out tr1
                | Continue apiKey' ins2 tr1 \<Rightarrow>
                    (case ask (deployment parsed) ins2 of
                       None \<Rightarrow> Stopped Abandoned (tr1 @ [Ask ''Deployment name''])
                     | Some (d, ins3) \<Rightarrow>
                         Continue \<lparr>g_baseUrl = JStr (baseUrl parsed), g_deployment = d,
                                   g_apiVersion = JStr (apiVersion parsed),
                                   g_apiKey = JStr apiKey'\<rparr>
                           ins3 (tr1 @ [Ask ''Deployment name''])))))"

text \<open>\<^verbatim>\<open>s.toLowerCase()\<close> on code units below 256.\<close>

definition toLowerCase :: "string \<Rightarrow> string" where
  "toLowerCase s =
     map (\<lambda>c. let n = (of_char c :: nat) in
               if (65 \<le> n \<and> n \<le> 90) \<or> (192 \<le> n \<and> n \<le> 222 \<and> n \<noteq> 215)
               then char_of (n + 32) else c) s"

record settled =
  baseUrl_of :: string
  apiKey_of :: string
  deployment_of :: string
  apiVersion_of :: string

text \<open>The four values as the strings that \<^verbatim>\<open>testConnection\<close> and the merge step take.\<close>

definition settled_of :: "gathered \<Rightarrow> settled option" where
  "settled_of g =
     (case (g_baseUrl g, g_apiKey g, g_apiVersion g) of
        (JStr b, JStr k, JStr v) \<Rightarrow>
          Some \<lparr>baseUrl_of = b, apiKey_of = k, deployment_of = g_deployment g,
                apiVersion_of = v\<rparr>
      | other \<Rightarrow> None)"

definition probe_effect :: "settled \<Rightarrow> effect" where
  "probe_effect s =
     TestConnection (baseUrl_of s) (apiKey_of s) (deployment_of s) (apiVersion_of s)"

definition probe_call :: "'f env \<Rightarrow> nat \<Rightarrow> settled \<Rightarrow> js_error + ProbeResult" where
  "probe_call env i s =
     testConnection (URL_platform env) (network env i)
       (baseUrl_of s) (apiKey_of s) (deployment_of s) (apiVersion_of s)"

text \<open>
  The connection test of \<^verbatim>\<open>main\<close>, with its one retry. A rejected \<^verbatim>\<open>testConnection\<close>
  ends \<^verbatim>\<open>main\<close> in its handler, with code 1.
\<close>

definition probe :: "'f env \<Rightarrow> settled \<Rightarrow> user_input list \<Rightarrow> effect list \<Rightarrow> settled phase" where
  "probe env s ins tr =
     (case probe_call env 0 s of
        Inl e \<Rightarrow> Stopped (Exit 1) (tr @ [probe_effect s])
      | Inr result \<Rightarrow>
          if ok result then Continue s ins (tr @ [probe_effect s])
          else if nonInteractive env then Continue s ins (tr @ [probe_effect s])
          else
            (case ask (deployment_of s) ins of
               None \<Rightarrow> Stopped Abandoned (tr @ [probe_effect s, Ask ''Deployment name''])
             | Some (d, ins1) \<Rightarrow>
                 (case ask (apiVersion_of s) ins1 of
                    None \<Rightarrow>
                      Stopped Abandoned
                        (tr @ [probe_effect s, Ask ''Deployment name'', Ask ''API Version''])
                  | Some (v, ins2) \<Rightarrow>
                      (let s1 = s\<lparr>deployment_of := d, apiVersion_of := v\<rparr>;
                           tr1 = tr @ [probe_effect s, Ask ''Deployment name'',
                                       Ask ''API Version'', probe_effect s1]
                       in case probe_call env 1 s1 of
                            Inl e \<Rightarrow> Stopped (Exit 1) tr1
                          | Inr result1 \<Rightarrow>
                              if ok result1 then Continue s1 ins2 tr1
                              else
                                (case ask ''N'' ins2 of
                                   None \<Rightarrow>
                                     Stopped Abandoned
                                       (tr1 @ [Ask ''Save config anyway? (y/N)''])
                                 | Some (cont, ins3) \<Rightarrow>
                                     if toLowerCase cont \<noteq> ''y''
                                     then Stopped (Exit 1)
                                            (tr1 @ [Ask ''Save config anyway? (y/N)''])
                                     else Continue s1 ins3
                                            (tr1 @ [Ask ''Save config anyway? (y/N)'']))))))"

text \<open>
  The rest of \<^verbatim>\<open>main\<close>: the directories, the merge step, the marketplace package, the
  write of the configuration file and the installation of the binary. A throw outside the
  two \<^verbatim>\<open>try\<close> blocks ends \<^verbatim>\<open>main\<close> in its handler, with code 1. The binary's
  installation is one effect: it touches neither the configuration file nor the exit
  code.
\<close>

definition commit :: "'f env \<Rightarrow> jsval \<Rightarrow> settled \<Rightarrow> effect list \<Rightarrow> 'f run" where
  "commit env existingConfig s tr =
     (if fs_fails env MkdirConfigDir then
        \<lparr>outcome = Exit 1, effects = tr @ [Fs MkdirConfigDir], final_disk = disk env\<rparr>
      else
        (case merge_step existingConfig (baseUrl_of s) (apiKey_of s) (deployment_of s)
                (apiVersion_of s) of
           Inl e \<Rightarrow>
             \<lparr>outcome = Exit 1, effects = tr @ [Fs MkdirConfigDir], final_disk = disk env\<rparr>
         | Inr config \<Rightarrow>
             if fs_fails env MkdirMcpDir then
               \<lparr>outcome = Exit 1, effects = tr @ [Fs MkdirConfigDir, Fs MkdirMcpDir],
                final_disk = disk env\<rparr>
             else
               (let config1 = (if npm_ok env then mcp_step config (mcpPath env) else config);
                    tr1 = tr @ [Fs MkdirConfigDir, Fs MkdirMcpDir, McpInstall, Fs WriteConfig]
                in if fs_fails env WriteConfig then
                     \<lparr>outcome = Exit 1, effects = tr1, final_disk = disk env\<rparr>
                   else
                     \<lparr>outcome = Exit 0, effects = tr1 @ [BinaryInstall],
                      final_disk = Some (JSON_stringify env config1)\<rparr>)))"

text \<open>\<^verbatim>\<open>main()\<close>, with the handler attached to it.\<close>

definition main :: "'f env \<Rightarrow> 'f run" where
  "main env =
     (let existingConfig = loadExistingConfig (JSON_parse env) (disk env);
          existingAzure = getExistingAzureSettings existingConfig
      in case gather env existingAzure [FetchDefaults] of
           Stopped out tr \<Rightarrow> \<lparr>outcome = out, effects = tr, final_disk = disk env\<rparr>
         | Continue g ins tr \<Rightarrow>
             (case settled_of g of
                None \<Rightarrow> \<lparr>outcome = Unmodelled, effects = tr, final_disk = disk env\<rparr>
              | Some s \<Rightarrow>
                  (case probe env s ins tr of
                     Stopped out tr1 \<Rightarrow>
                       \<lparr>outcome = out, effects = tr1, final_disk = disk env\<rparr>
                   | Continue s1 ins1 tr1 \<Rightarrow> commit env existingConfig s1 tr1)))"

text \<open>The calls of \<^verbatim>\<open>testConnection\<close> among the effects of a run.\<close>

fun is_probe :: "effect \<Rightarrow> bool" where
  "is_probe (TestConnection b k d v) = True"
| "is_probe e = False"

section \<open>Example inputs\<close>

text \<open>A stored document with a section of the user's own and an older provider entry.\<close>

definition stored_document :: jsval where
  "stored_document =
     JObj [(''agent'', JObj [(''build'', JObj [(''mode'', JStr ''primary'')])]),
           (''provider'',
              JObj [(''azure'', JObj [(''options'', JObj [(''baseURL'', JStr ''https://old/openai'')]),
                                       (''models'', JObj [(''gpt-4'', JObj [])])]),
                    (''other'', JObj [])])]"

text \<open>The URL of the specification's example, and what the platform's parser makes of
  it.\<close>

definition portal_input :: string where
  "portal_input =
     ''https://foo.openai.azure.com/openai/deployments/gpt-5/chat/completions?api-version=2024-10-01''"

definition portal_url :: URL where
  "portal_url =
     \<lparr>url_scheme = ''https'', url_authority = Some ''foo.openai.azure.com'',
      url_path = Segments [''openai'', ''deployments'', ''gpt-5'', ''chat'', ''completions''],
      url_query = Some ''api-version=2024-10-01'', url_fragment = None,
      url_params = [(''api-version'', ''2024-10-01'')]\<rparr>"

text \<open>The URL that the probe requests for the bare host \<^verbatim>\<open>foo.openai.azure.com\<close> and the
  default deployment and version.\<close>

definition probe_input :: string where
  "probe_input =
     ''https://foo.openai.azure.com/openai/deployments/model-router/chat/completions?api-version=2025-01-01-preview''"

definition probe_url :: URL where
  "probe_url =
     \<lparr>url_scheme = ''https'', url_authority = Some ''foo.openai.azure.com'',
      url_path = Segments [''openai'', ''deployments'', ''model-router'', ''chat'',
                           ''completions''],
      url_query = Some ''api-version=2025-01-01-preview'', url_fragment = None,
      url_params = [(''api-version'', ''2025-01-01-preview'')]\<rparr>"

text \<open>A URL whose \<^verbatim>\<open>api-version\<close> parameter is empty, one whose \<^verbatim>\<open>openai\<close> segment
  comes after the deployment, and one with a fragment.\<close>

definition empty_version_input :: string where
  "empty_version_input = ''https://foo.openai.azure.com/openai/deployments/gpt-5?api-version=''"

definition empty_version_url :: URL where
  "empty_version_url =
     \<lparr>url_scheme = ''https'', url_authority = Some ''foo.openai.azure.com'',
      url_path = Segments [''openai'', ''deployments'', ''gpt-5''],
      url_query = Some ''api-version='', url_fragment = None,
      url_params = [(''api-version'', [])]\<rparr>"

definition late_openai_input :: string where
  "late_openai_input =
     ''https://foo.openai.azure.com/deployments/gpt-5/openai?api-version=2024-10-01''"

definition late_openai_url :: URL where
  "late_openai_url =
     \<lparr>url_scheme = ''https'', url_authority = Some ''foo.openai.azure.com'',
      url_path = Segments [''deployments'', ''gpt-5'', ''openai''],
      url_query = Some ''api-version=2024-10-01'', url_fragment = None,
      url_params = [(''api-version'', ''2024-10-01'')]\<rparr>"

definition fragment_input :: string where
  "fragment_input = ''https://foo.openai.azure.com/openai#a//''"

definition fragment_url :: URL where
  "fragment_url =
     \<lparr>url_scheme = ''https'', url_authority = Some ''foo.openai.azure.com'',
      url_path = Segments [''openai''],
      url_query = None, url_fragment = Some ''a//'',
      url_params = []\<rparr>"

text \<open>The platform's parser at these inputs. (For any other input with a scheme this
  table has no entry; no example below passes one.)\<close>

definition example_platform :: "string \<Rightarrow> URL option" where
  "example_platform =
     map_of [(portal_input, portal_url), (probe_input, probe_url),
             (empty_version_input, empty_version_url),
             (late_openai_input, late_openai_url),
             (fragment_input, fragment_url)]"

text \<open>
  A first run on a terminal, with no configuration file. File contents are given by the
  value they encode: \<^verbatim>\<open>JSON.stringify\<close> is \<^const>\<open>json_image\<close> and \<^verbatim>\<open>JSON.parse\<close>
  returns what it is given.
\<close>

definition first_run :: "jsval env" where
  "first_run =
     \<lparr>nonInteractive = False, isTTY = True, disk = None,
      JSON_parse = Some, JSON_stringify = json_image,
      URL_platform = example_platform,
      fetched_defaults = hardcoded_defaults,
      stdin = [],
      network = (\<lambda>i. Response 401 ''Unauthorized''),
      fs_fails = (\<lambda>op. False),
      npm_ok = True,
      mcpPath = ''/home/u/.config/opencode/mcps/mcp-marketplace/node_modules/opencode-mcp-marketplace/dist/index.js''\<rparr>"

definition example_settled :: settled where
  "example_settled =
     \<lparr>baseUrl_of = ''https://foo.openai.azure.com/openai'', apiKey_of = ''secret'',
      deployment_of = ''gpt-5'', apiVersion_of = ''2024-10-01''\<rparr>"

text \<open>Stored documents: one with an endpoint and no key, one with a three-letter key,
  and one whose endpoint was written without its scheme.\<close>

definition stored_with :: "(string \<times> jsval) list \<Rightarrow> jsval" where
  "stored_with options = JObj [(''provider'', JObj [(''azure'', JObj [(''options'', JObj options)])])]"

definition endpoint_only_document :: jsval where
  "endpoint_only_document =
     stored_with [(''baseURL'', JStr ''https://foo.openai.azure.com/openai'')]"

definition short_key_document :: jsval where
  "short_key_document =
     stored_with [(''baseURL'', JStr ''https://foo.openai.azure.com/openai''),
                  (''apiKey'', JStr ''abc'')]"

definition schemeless_document :: jsval where
  "schemeless_document =
     stored_with [(''baseURL'', JStr ''foo.openai.azure.com/openai''),
                  (''apiKey'', JStr ''secret'')]"

section \<open>Properties of the string operations\<close>

lemma startsWith_prefix: "startsWith s p \<longleftrightarrow> prefix p s"
  unfolding startsWith_def prefix_def
  by (metis append_eq_conv_conj)

lemma endsWith_suffix: "endsWith s p \<longleftrightarrow> suffix p s"
proof
  assume "endsWith s p"
  then have "s = take (length s - length p) s @ p"
    by (metis append_take_drop_id endsWith_def)
  then show "suffix p s" by (metis suffixI)
next
  assume "suffix p s"
  then obtain zs where "s = zs @ p" by (auto simp: suffix_def)
  then show "endsWith s p" by (simp add: endsWith_def)
qed

lemma startsWith_append: "startsWith s p \<Longrightarrow> startsWith (s @ t) p"
  by (simp add: startsWith_prefix)

lemma endsWith_append_self: "endsWith (s @ p) p"
  by (simp add: endsWith_def)

lemma strip_trailing_slash_no_slash:
  "CHR ''/'' \<notin> set s \<Longrightarrow> strip_trailing_slash s = s"
  by (cases s rule: rev_cases) (auto simp: strip_trailing_slash_def)

lemma strip_trailing_slash_prefix: "prefix (strip_trailing_slash s) s"
  by (cases s rule: rev_cases) (auto simp: strip_trailing_slash_def)

text \<open>A host without a slash ends, after the scheme prefix, in \<^verbatim>\<open>/openai\<close> only when it
  is the host \<^verbatim>\<open>openai\<close> itself: the slash is then the second one of \<^verbatim>\<open>https://\<close>.\<close>

lemma endsWith_https_openai:
  assumes "CHR ''/'' \<notin> set h" "endsWith (''https://'' @ h) ''/openai''"
  shows "h = ''openai''"
proof -
  from assms(2) have "suffix ''/openai'' (''https://'' @ h)"
    by (simp only: endsWith_suffix)
  then consider "suffix ''/openai'' h"
    | xs where "''/openai'' = xs @ h" "suffix xs ''https://''"
    by (auto simp only: suffix_append)
  then show ?thesis
  proof cases
    case 1
    then have "CHR ''/'' \<in> set h" by (auto simp: suffix_def)
    with assms(1) show ?thesis by simp
  next
    case 2
    from 2(2) have "xs \<in> set (suffixes ''https://'')"
      by (simp only: in_set_suffixes)
    then have "xs \<in> {[], ''/'', ''//'', ''://'', ''s://'', ''ps://'', ''tps://'',
        ''ttps://'', ''https://''}"
      by simp
    with 2(1) assms(1) show ?thesis by auto
  qed
qed

section \<open>Properties of the URL constructor\<close>

lemma URL_new_no_scheme:
  "\<not> has_scheme (url_preprocess input) \<Longrightarrow> URL_new platform input = None"
  by (simp add: URL_new_def)

lemma dropWhile_c0_https:
  "dropWhile c0_or_space (''https://'' @ t) = ''https://'' @ t"
  by (simp add: c0_or_space_def)

lemma rev_dropWhile_rev_https:
  "\<exists>t'. rev (dropWhile c0_or_space (rev (''https://'' @ t))) = ''https://'' @ t'"
proof (induction t rule: rev_induct)
  case Nil
  show ?case by (simp add: c0_or_space_def)
next
  case (snoc x xs)
  show ?case
  proof (cases "c0_or_space x")
    case True
    with snoc show ?thesis by simp
  next
    case False
    then have "rev (dropWhile c0_or_space (rev (''https://'' @ xs @ [x])))
        = ''https://'' @ xs @ [x]"
      by simp
    then show ?thesis by blast
  qed
qed

lemma has_scheme_https: "has_scheme (''https://'' @ t)"
  by (simp add: has_scheme_def ascii_alpha_def scheme_char_def)

text \<open>An input that starts with \<^verbatim>\<open>https://\<close> has a scheme; so an input without a scheme
  does not start with it.\<close>

lemma has_scheme_preprocess_https:
  assumes "prefix ''https://'' s"
  shows "has_scheme (url_preprocess s)"
proof -
  from assms obtain t where s: "s = ''https://'' @ t" by (auto simp: prefix_def)
  obtain t' where "rev (dropWhile c0_or_space (rev (''https://'' @ t))) = ''https://'' @ t'"
    using rev_dropWhile_rev_https by blast
  then have "url_preprocess s = ''https://'' @ filter (\<lambda>c. \<not> tab_or_newline c) t'"
    unfolding url_preprocess_def s dropWhile_c0_https by (simp add: tab_or_newline_def)
  then show ?thesis by (simp only: has_scheme_https)
qed

section \<open>The endpoint parser on inputs that are not URLs\<close>

lemma parseAzureEndpoint_catch:
  assumes "URL_new platform input = None"
  shows "parseAzureEndpoint platform input dflt =
     (let cleaned = strip_trailing_slash input;
          cleaned1 = (if \<not> startsWith cleaned ''https://''
                      then ''https://'' @ cleaned else cleaned);
          cleaned2 = (if \<not> endsWith cleaned1 ''/openai''
                      then cleaned1 @ ''/openai'' else cleaned1)
      in \<lparr>baseUrl = cleaned2,
          deployment = dflt_deployment dflt,
          apiVersion = dflt_apiVersion dflt\<rparr>)"
  using assms by (simp add: parseAzureEndpoint_def)

lemma catch_baseUrl_envelope:
  assumes "URL_new platform input = None"
  shows "startsWith (baseUrl (parseAzureEndpoint platform input dflt)) ''https://''
       \<and> endsWith (baseUrl (parseAzureEndpoint platform input dflt)) ''/openai''"
proof -
  define c1 where "c1 = (if \<not> startsWith (strip_trailing_slash input) ''https://''
      then ''https://'' @ strip_trailing_slash input else strip_trailing_slash input)"
  have c1: "startsWith c1 ''https://''"
    unfolding c1_def by (simp add: startsWith_def)
  have b: "baseUrl (parseAzureEndpoint platform input dflt)
      = (if \<not> endsWith c1 ''/openai'' then c1 @ ''/openai'' else c1)"
    using assms unfolding c1_def by (simp add: parseAzureEndpoint_catch Let_def)
  show ?thesis
  proof (cases "endsWith c1 ''/openai''")
    case True
    with b c1 show ?thesis by simp
  next
    case False
    with b have "baseUrl (parseAzureEndpoint platform input dflt) = c1 @ ''/openai''"
      by simp
    with c1 show ?thesis
      by (simp only: startsWith_append endsWith_append_self)
  qed
qed

lemma endsWith_slash: "endsWith s ''/'' \<longleftrightarrow> s \<noteq> [] \<and> last s = CHR ''/''"
  by (cases s rule: rev_cases) (simp_all add: endsWith_def)

lemma strip_trailing_slash_endsWith:
  "strip_trailing_slash s = (if endsWith s ''/'' then butlast s else s)"
  by (simp add: strip_trailing_slash_def endsWith_slash)

lemma not_startsWith_https:
  assumes "CHR ''/'' \<notin> set h"
  shows "\<not> startsWith h ''https://''" "\<not> startsWith (h @ ''/'') ''https://''"
proof -
  show "\<not> startsWith h ''https://''"
    using assms by (auto simp: startsWith_prefix prefix_def)
  show "\<not> startsWith (h @ ''/'') ''https://''"
  proof
    assume "startsWith (h @ ''/'') ''https://''"
    then obtain t where t: "h @ ''/'' = ''https://'' @ t"
      by (auto simp: startsWith_prefix prefix_def)
    show False
    proof (cases t rule: rev_cases)
      case Nil
      with t have "h = ''https:/''" by simp
      with assms show False by simp
    next
      case (snoc t' x)
      with t have "h = ''https://'' @ t'" by simp
      with assms show False by simp
    qed
  qed
qed

lemma bare_hosts_do_not_parse:
  "URL_new platform ''foo.openai.azure.com'' = None"
  "URL_new platform ''foo.openai.azure.com/'' = None"
  "URL_new platform ''foo.openai.azure.com//'' = None"
  "URL_new platform ''foo.openai.azure.com/openai/'' = None"
  by (simp_all add: URL_new_def has_scheme_def url_preprocess_def c0_or_space_def
      tab_or_newline_def ascii_alpha_def scheme_char_def)

text \<open>
  Claim C8. When the input fails URL parsing, the parser strips one trailing slash
  (the last character, when it is a slash), prepends \<^verbatim>\<open>https://\<close> unless the text
  already starts with it (so whenever the input has no scheme), and appends \<^verbatim>\<open>/openai\<close>
  unless the text already ends with it. The result always starts with \<^verbatim>\<open>https://\<close> and
  ends with \<^verbatim>\<open>/openai\<close>, and the defaults are returned untouched. For a bare host \<open>h\<close>
  (no slash in it) the inputs \<open>h\<close> and \<open>h/\<close> give the same result: it starts with
  \<^verbatim>\<open>https://\<close> and the host, and it is \<^verbatim>\<open>https://\<close>, the host and \<^verbatim>\<open>/openai\<close>, except for the
  host \<^verbatim>\<open>openai\<close>, whose prefixed form \<^verbatim>\<open>https://openai\<close> already ends in \<^verbatim>\<open>/openai\<close>. Of
  two trailing slashes one stays (\<open>h//\<close> gives \<^verbatim>\<open>https://\<close>, the host and \<^verbatim>\<open>//openai\<close>), and
  \<open>h/openai/\<close> gives \<^verbatim>\<open>https://\<close>, the host and \<^verbatim>\<open>/openai\<close>.
\<close>

theorem parseAzureEndpoint_not_a_url:
  assumes "URL_new platform input = None"
  shows "(let r = parseAzureEndpoint platform input dflt;
              cleaned = (if endsWith input ''/'' then butlast input else input);
              prefixed = (if startsWith cleaned ''https://'' then cleaned
                          else ''https://'' @ cleaned)
          in baseUrl r = (if endsWith prefixed ''/openai'' then prefixed
                          else prefixed @ ''/openai'')
           \<and> startsWith (baseUrl r) ''https://''
           \<and> endsWith (baseUrl r) ''/openai''
           \<and> (\<not> has_scheme (url_preprocess input) \<longrightarrow>
                  startsWith (baseUrl r) (''https://'' @ cleaned))
           \<and> (CHR ''/'' \<notin> set input \<longrightarrow>
                  startsWith (baseUrl r) (''https://'' @ input)
                  \<and> (input \<noteq> ''openai'' \<longrightarrow> baseUrl r = ''https://'' @ input @ ''/openai''))
           \<and> (\<forall>h. input = h @ ''/'' \<and> CHR ''/'' \<notin> set h \<longrightarrow>
                  startsWith (baseUrl r) (''https://'' @ h)
                  \<and> \<not> startsWith (baseUrl r) (''https://'' @ h @ ''/'' @ ''/'')
                  \<and> (h \<noteq> ''openai'' \<longrightarrow> baseUrl r = ''https://'' @ h @ ''/openai''))
           \<and> (\<forall>h. input = h @ ''//'' \<and> CHR ''/'' \<notin> set h \<longrightarrow>
                  baseUrl r = ''https://'' @ h @ ''//openai'')
           \<and> (\<forall>h. input = h @ ''/openai/'' \<and> CHR ''/'' \<notin> set h \<longrightarrow>
                  baseUrl r = ''https://'' @ h @ ''/openai'')
           \<and> deployment r = dflt_deployment dflt
           \<and> apiVersion r = dflt_apiVersion dflt)"
proof -
  let ?r = "parseAzureEndpoint platform input dflt"
  let ?c = "if endsWith input ''/'' then butlast input else input"
  let ?p = "if startsWith ?c ''https://'' then ?c else ''https://'' @ ?c"
  have c: "strip_trailing_slash input = ?c" by (rule strip_trailing_slash_endsWith)
  have eq: "baseUrl ?r = (if endsWith ?p ''/openai'' then ?p else ?p @ ''/openai'')"
    using assms unfolding c [symmetric] by (simp add: parseAzureEndpoint_catch Let_def)
  have dv: "deployment ?r = dflt_deployment dflt" "apiVersion ?r = dflt_apiVersion dflt"
    using assms by (simp_all add: parseAzureEndpoint_catch Let_def)
  have env: "startsWith (baseUrl ?r) ''https://''" "endsWith (baseUrl ?r) ''/openai''"
    using catch_baseUrl_envelope [OF assms] by blast+
  have host: "startsWith (baseUrl ?r) (''https://'' @ h)
      \<and> (h \<noteq> ''openai'' \<longrightarrow> baseUrl ?r = ''https://'' @ h @ ''/openai'')
      \<and> (baseUrl ?r = ''https://'' @ h \<or> baseUrl ?r = ''https://'' @ h @ ''/openai'')"
    if ns: "CHR ''/'' \<notin> set h" and ch: "?c = h" for h
  proof -
    from not_startsWith_https(1) [OF ns] have p: "?p = ''https://'' @ h"
      unfolding ch by simp
    have "\<not> endsWith (''https://'' @ h) ''/openai''" if "h \<noteq> ''openai''"
      using that ns endsWith_https_openai by blast
    with eq have 1: "h \<noteq> ''openai'' \<longrightarrow> baseUrl ?r = ''https://'' @ h @ ''/openai''"
      unfolding p by simp
    from eq have 2: "baseUrl ?r = ''https://'' @ h \<or> baseUrl ?r = ''https://'' @ h @ ''/openai''"
      unfolding p by (cases "endsWith (''https://'' @ h) ''/openai''") simp_all
    then have "startsWith (baseUrl ?r) (''https://'' @ h)"
      by (auto simp: startsWith_prefix)
    with 1 2 show ?thesis by blast
  qed
  have nosch: "startsWith (baseUrl ?r) (''https://'' @ ?c)"
    if "\<not> has_scheme (url_preprocess input)"
  proof -
    have "\<not> prefix ''https://'' input"
      using that has_scheme_preprocess_https by blast
    moreover have "prefix ?c input"
      using strip_trailing_slash_prefix [of input] unfolding c .
    ultimately have "\<not> prefix ''https://'' ?c"
      using prefix_order.trans by blast
    then have "?p = ''https://'' @ ?c"
      by (simp only: startsWith_prefix if_False)
    with eq have "baseUrl ?r = ''https://'' @ ?c \<or> baseUrl ?r = (''https://'' @ ?c) @ ''/openai''"
      by (cases "endsWith (''https://'' @ ?c) ''/openai''") simp_all
    then show ?thesis
      by (auto simp only: startsWith_prefix prefix_append prefix_order.refl)
  qed
  have bare: "startsWith (baseUrl ?r) (''https://'' @ input)
      \<and> (input \<noteq> ''openai'' \<longrightarrow> baseUrl ?r = ''https://'' @ input @ ''/openai'')"
    if ns: "CHR ''/'' \<notin> set input"
  proof -
    from ns have "\<not> endsWith input ''/''" by (metis endsWith_slash last_in_set)
    then have "?c = input" by simp
    from host [OF ns this] show ?thesis by blast
  qed
  have slash1: "startsWith (baseUrl ?r) (''https://'' @ h)
      \<and> \<not> startsWith (baseUrl ?r) (''https://'' @ h @ ''/'' @ ''/'')
      \<and> (h \<noteq> ''openai'' \<longrightarrow> baseUrl ?r = ''https://'' @ h @ ''/openai'')"
    if h: "input = h @ ''/'' \<and> CHR ''/'' \<notin> set h" for h
  proof -
    from h have ch: "?c = h" by (simp add: endsWith_def)
    from h have ns: "CHR ''/'' \<notin> set h" by simp
    from host [OF ns ch] have 1: "startsWith (baseUrl ?r) (''https://'' @ h)"
      and 2: "h \<noteq> ''openai'' \<longrightarrow> baseUrl ?r = ''https://'' @ h @ ''/openai''"
      and 3: "baseUrl ?r = ''https://'' @ h \<or> baseUrl ?r = ''https://'' @ h @ ''/openai''"
      by blast+
    from 3 have "\<not> startsWith (baseUrl ?r) (''https://'' @ h @ ''/'' @ ''/'')"
      by (auto simp: startsWith_prefix prefix_def)
    with 1 2 show ?thesis by blast
  qed
  have slash2: "baseUrl ?r = ''https://'' @ h @ ''//openai''"
    if h: "input = h @ ''//'' \<and> CHR ''/'' \<notin> set h" for h
  proof -
    from h have ch: "?c = h @ ''/''" by (simp add: endsWith_def butlast_append)
    from h have ns: "CHR ''/'' \<notin> set h" by simp
    from not_startsWith_https(2) [OF ns] have p: "?p = ''https://'' @ h @ ''/''"
      unfolding ch by simp
    have "\<not> endsWith (''https://'' @ h @ ''/'') ''/openai''"
    proof
      assume "endsWith (''https://'' @ h @ ''/'') ''/openai''"
      then obtain zs where "''https://'' @ h @ ''/'' = zs @ ''/openai''"
        by (auto simp only: endsWith_suffix suffix_def)
      then have "last (''https://'' @ h @ ''/'') = last (zs @ ''/openai'')"
        by (simp only:)
      then show False by simp
    qed
    with eq show ?thesis unfolding p by simp
  qed
  have slash3: "baseUrl ?r = ''https://'' @ h @ ''/openai''"
    if h: "input = h @ ''/openai/'' \<and> CHR ''/'' \<notin> set h" for h
  proof -
    from h have ch: "?c = h @ ''/openai''" by (simp add: endsWith_def butlast_append)
    from h have ns: "CHR ''/'' \<notin> set h" by simp
    have "\<not> startsWith (h @ ''/openai'') ''https://''"
    proof
      assume "startsWith (h @ ''/openai'') ''https://''"
      then have "prefix ''https://'' (h @ ''/openai'')" by (simp only: startsWith_prefix)
      then consider "prefix ''https://'' h"
        | us where "''https://'' = h @ us" "prefix us ''/openai''"
        by (auto simp only: prefix_append)
      then show False
      proof cases
        case 1
        with ns show False by (auto simp: prefix_def)
      next
        case 2
        from 2(2) have "us \<in> set (prefixes ''/openai'')" by (simp only: in_set_prefixes)
        then have "us \<in> {[], ''/'', ''/o'', ''/op'', ''/ope'', ''/open'', ''/opena'',
            ''/openai''}" by simp
        with 2(1) ns show False by auto
      qed
    qed
    then have p: "?p = ''https://'' @ h @ ''/openai''"
      unfolding ch by simp
    have "endsWith (''https://'' @ h @ ''/openai'') ''/openai''"
      using endsWith_append_self [of "''https://'' @ h" "''/openai''"] by simp
    with eq show ?thesis unfolding p by simp
  qed
  show ?thesis
    unfolding Let_def
    apply (intro conjI allI impI)
    subgoal by (rule eq)
    subgoal by (rule env(1))
    subgoal by (rule env(2))
    subgoal using nosch by blast
    subgoal using bare by blast
    subgoal using bare by blast
    subgoal for h using slash1 [of h] by blast
    subgoal for h using slash1 [of h] by blast
    subgoal for h using slash1 [of h] by blast
    subgoal for h using slash2 [of h] by blast
    subgoal for h using slash3 [of h] by blast
    subgoal by (rule dv(1))
    subgoal by (rule dv(2))
    done
qed

theorem parseAzureEndpoint_not_a_url_witness:
  "URL_new example_platform ''foo.openai.azure.com'' = None
   \<and> parseAzureEndpoint example_platform ''foo.openai.azure.com'' hardcoded_defaults
       = \<lparr>baseUrl = ''https://foo.openai.azure.com/openai'',
          deployment = ''model-router'', apiVersion = ''2025-01-01-preview''\<rparr>
   \<and> URL_new example_platform ''foo.openai.azure.com/'' = None
   \<and> baseUrl (parseAzureEndpoint example_platform ''foo.openai.azure.com/'' hardcoded_defaults)
       = ''https://foo.openai.azure.com/openai''
   \<and> URL_new example_platform ''foo.openai.azure.com//'' = None
   \<and> baseUrl (parseAzureEndpoint example_platform ''foo.openai.azure.com//'' hardcoded_defaults)
       = ''https://foo.openai.azure.com//openai''
   \<and> URL_new example_platform ''foo.openai.azure.com/openai/'' = None
   \<and> baseUrl (parseAzureEndpoint example_platform ''foo.openai.azure.com/openai/''
         hardcoded_defaults)
       = ''https://foo.openai.azure.com/openai''"
proof -
  note n = bare_hosts_do_not_parse [of example_platform]
  note t = parseAzureEndpoint_not_a_url [of example_platform _ hardcoded_defaults,
      unfolded Let_def]
  let ?h = "''foo.openai.azure.com''"
  let ?r = "parseAzureEndpoint example_platform ?h hardcoded_defaults"
  have ns: "CHR ''/'' \<notin> set ?h" by simp
  have ne: "?h \<noteq> ''openai''" by simp
  from t [OF n(1)]
  have "(CHR ''/'' \<notin> set ?h \<longrightarrow>
           startsWith (baseUrl ?r) (''https://'' @ ?h)
           \<and> (?h \<noteq> ''openai'' \<longrightarrow> baseUrl ?r = ''https://'' @ ?h @ ''/openai''))
        \<and> deployment ?r = dflt_deployment hardcoded_defaults
        \<and> apiVersion ?r = dflt_apiVersion hardcoded_defaults"
    by (elim conjE) (intro conjI, assumption+)
  with ns ne have "baseUrl ?r = ''https://foo.openai.azure.com/openai''
        \<and> deployment ?r = ''model-router''
        \<and> apiVersion ?r = ''2025-01-01-preview''"
    by (simp add: hardcoded_defaults_def)
  then have 1: "?r = \<lparr>baseUrl = ''https://foo.openai.azure.com/openai'',
          deployment = ''model-router'', apiVersion = ''2025-01-01-preview''\<rparr>"
    by (cases ?r) simp
  let ?r2 = "parseAzureEndpoint example_platform ''foo.openai.azure.com/'' hardcoded_defaults"
  from t [OF n(2)]
  have "\<forall>h. ''foo.openai.azure.com/'' = h @ ''/'' \<and> CHR ''/'' \<notin> set h \<longrightarrow>
                  startsWith (baseUrl ?r2) (''https://'' @ h)
                  \<and> \<not> startsWith (baseUrl ?r2) (''https://'' @ h @ ''/'' @ ''/'')
                  \<and> (h \<noteq> ''openai'' \<longrightarrow> baseUrl ?r2 = ''https://'' @ h @ ''/openai'')"
    by (elim conjE)
  from this [rule_format, of ?h] have 2: "baseUrl ?r2 = ''https://foo.openai.azure.com/openai''"
    by simp
  let ?r3 = "parseAzureEndpoint example_platform ''foo.openai.azure.com//'' hardcoded_defaults"
  from t [OF n(3)]
  have "\<forall>h. ''foo.openai.azure.com//'' = h @ ''//'' \<and> CHR ''/'' \<notin> set h \<longrightarrow>
                  baseUrl ?r3 = ''https://'' @ h @ ''//openai''"
    by (elim conjE)
  from this [rule_format, of ?h] have 3: "baseUrl ?r3 = ''https://foo.openai.azure.com//openai''"
    by simp
  let ?r4 = "parseAzureEndpoint example_platform ''foo.openai.azure.com/openai/''
      hardcoded_defaults"
  from t [OF n(4)]
  have "\<forall>h. ''foo.openai.azure.com/openai/'' = h @ ''/openai/'' \<and> CHR ''/'' \<notin> set h \<longrightarrow>
                  baseUrl ?r4 = ''https://'' @ h @ ''/openai''"
    by (elim conjE)
  from this [rule_format, of ?h] have 4: "baseUrl ?r4 = ''https://foo.openai.azure.com/openai''"
    by simp
  from n 1 2 3 4 show ?thesis by blast
qed

section \<open>Reading the stored settings\<close>

lemma getExistingAzureSettings_None_iff:
  "getExistingAzureSettings config = None \<longleftrightarrow>
     \<not> truthy_opt (optional_get (optional_get (optional_get (Some config) ''provider'')
                       ''azure'') ''options'')"
  by (auto simp: getExistingAzureSettings_def Let_def truthy_opt_def optional_get_def
      split: option.splits jsval.splits)

lemma getExistingAzureSettings_Some:
  assumes "optional_get (optional_get (Some config) ''provider'') ''azure'' = Some az"
    and "get_prop az ''options'' = Some opts" and "truthy opts"
  shows "getExistingAzureSettings config =
     Some \<lparr>s_baseUrl = js_or (get_prop opts ''baseURL'') (JStr []),
           s_apiKey = js_or (get_prop opts ''apiKey'') (JStr []),
           s_deployment = (case Object_keys (js_or (get_prop az ''models'') (JObj [])) of
                       k # ks \<Rightarrow> if k \<noteq> [] then k else ''model-router''
                     | [] \<Rightarrow> ''model-router''),
           s_apiVersion = js_or (get_prop opts ''apiVersion'') (JStr ''2025-01-01-preview'')\<rparr>"
proof -
  from assms(2) have az: "az \<noteq> JNull" by auto
  then have "optional_get (Some az) ''options'' = Some opts"
    using assms(2) by (cases az) (simp_all add: optional_get_def)
  with assms show ?thesis
    by (simp add: getExistingAzureSettings_def Let_def truthy_opt_def)
qed

text \<open>
  Claim C10, as stated, fails: the function also returns nothing when
  \<^verbatim>\<open>provider.azure.options\<close> is present and falsy. Here the document is
  \<^verbatim>\<open>{"provider": {"azure": {"options": false}}}\<close>.
\<close>

theorem getExistingAzureSettings_falsy_options:
  "optional_get (optional_get (optional_get
       (Some (JObj [(''provider'', JObj [(''azure'', JObj [(''options'', JBool False)])])]))
       ''provider'') ''azure'') ''options'' = Some (JBool False)
   \<and> getExistingAzureSettings
       (JObj [(''provider'', JObj [(''azure'', JObj [(''options'', JBool False)])])]) = None"
  by (simp add: getExistingAzureSettings_def optional_get_def truthy_opt_def)

text \<open>
  Claim C10, amended. \<^verbatim>\<open>getExistingAzureSettings\<close> returns nothing exactly when
  \<^verbatim>\<open>config?.provider?.azure?.options\<close> is absent or falsy (\<^verbatim>\<open>null\<close>, \<^verbatim>\<open>false\<close>, \<^verbatim>\<open>0\<close>,
  the empty string). When it is truthy, and so whenever it is an object, settings are
  returned, with the fallbacks for what is missing (or falsy): the empty string for
  \<^verbatim>\<open>baseURL\<close> and for \<^verbatim>\<open>apiKey\<close>, \<^verbatim>\<open>2025-01-01-preview\<close> for \<^verbatim>\<open>apiVersion\<close>, and
  \<^verbatim>\<open>model-router\<close> for the deployment when \<^verbatim>\<open>models\<close> is absent or empty; a truthy field
  is returned as it is, and the deployment is the first key of \<^verbatim>\<open>models\<close>.
\<close>

theorem getExistingAzureSettings_fallbacks:
  "(getExistingAzureSettings config = None \<longleftrightarrow>
      \<not> truthy_opt (optional_get (optional_get (optional_get (Some config) ''provider'')
                        ''azure'') ''options''))
   \<and> (\<forall>az opts.
        optional_get (optional_get (Some config) ''provider'') ''azure'' = Some az
        \<and> get_prop az ''options'' = Some opts \<and> truthy opts \<longrightarrow>
        (\<exists>st. getExistingAzureSettings config = Some st
           \<and> (\<not> truthy_opt (get_prop opts ''baseURL'') \<longrightarrow> s_baseUrl st = JStr [])
           \<and> (\<not> truthy_opt (get_prop opts ''apiKey'') \<longrightarrow> s_apiKey st = JStr [])
           \<and> (\<not> truthy_opt (get_prop opts ''apiVersion'') \<longrightarrow>
                 s_apiVersion st = JStr ''2025-01-01-preview'')
           \<and> (get_prop az ''models'' = None \<or> get_prop az ''models'' = Some (JObj []) \<longrightarrow>
                 s_deployment st = ''model-router'')
           \<and> (\<forall>x. get_prop opts ''baseURL'' = Some x \<and> truthy x \<longrightarrow> s_baseUrl st = x)
           \<and> (\<forall>x. get_prop opts ''apiKey'' = Some x \<and> truthy x \<longrightarrow> s_apiKey st = x)
           \<and> (\<forall>x. get_prop opts ''apiVersion'' = Some x \<and> truthy x \<longrightarrow> s_apiVersion st = x)
           \<and> (\<forall>k x ps. get_prop az ''models'' = Some (JObj ((k, x) # ps)) \<and> k \<noteq> [] \<longrightarrow>
                 s_deployment st = k)))"
proof (intro conjI allI impI)
  show "getExistingAzureSettings config = None \<longleftrightarrow>
      \<not> truthy_opt (optional_get (optional_get (optional_get (Some config) ''provider'')
                        ''azure'') ''options'')"
    by (rule getExistingAzureSettings_None_iff)
next
  fix az opts
  assume "optional_get (optional_get (Some config) ''provider'') ''azure'' = Some az
        \<and> get_prop az ''options'' = Some opts \<and> truthy opts"
  then have eq: "getExistingAzureSettings config =
     Some \<lparr>s_baseUrl = js_or (get_prop opts ''baseURL'') (JStr []),
           s_apiKey = js_or (get_prop opts ''apiKey'') (JStr []),
           s_deployment = (case Object_keys (js_or (get_prop az ''models'') (JObj [])) of
                       k # ks \<Rightarrow> if k \<noteq> [] then k else ''model-router''
                     | [] \<Rightarrow> ''model-router''),
           s_apiVersion = js_or (get_prop opts ''apiVersion'') (JStr ''2025-01-01-preview'')\<rparr>"
    using getExistingAzureSettings_Some by blast
  show "\<exists>st. getExistingAzureSettings config = Some st
           \<and> (\<not> truthy_opt (get_prop opts ''baseURL'') \<longrightarrow> s_baseUrl st = JStr [])
           \<and> (\<not> truthy_opt (get_prop opts ''apiKey'') \<longrightarrow> s_apiKey st = JStr [])
           \<and> (\<not> truthy_opt (get_prop opts ''apiVersion'') \<longrightarrow>
                 s_apiVersion st = JStr ''2025-01-01-preview'')
           \<and> (get_prop az ''models'' = None \<or> get_prop az ''models'' = Some (JObj []) \<longrightarrow>
                 s_deployment st = ''model-router'')
           \<and> (\<forall>x. get_prop opts ''baseURL'' = Some x \<and> truthy x \<longrightarrow> s_baseUrl st = x)
           \<and> (\<forall>x. get_prop opts ''apiKey'' = Some x \<and> truthy x \<longrightarrow> s_apiKey st = x)
           \<and> (\<forall>x. get_prop opts ''apiVersion'' = Some x \<and> truthy x \<longrightarrow> s_apiVersion st = x)
           \<and> (\<forall>k x ps. get_prop az ''models'' = Some (JObj ((k, x) # ps)) \<and> k \<noteq> [] \<longrightarrow>
                 s_deployment st = k)"
    unfolding eq
    by (auto simp: js_or_def truthy_opt_def split: option.splits)
qed

text \<open>The document \<^verbatim>\<open>{"provider": {"azure": {"options": {"apiKey": "k"}}}}\<close>.\<close>

theorem getExistingAzureSettings_fallbacks_witness:
  "\<exists>st. getExistingAzureSettings
           (JObj [(''provider'',
                   JObj [(''azure'', JObj [(''options'', JObj [(''apiKey'', JStr ''k'')])])])])
         = Some st
       \<and> s_baseUrl st = JStr [] \<and> s_apiKey st = JStr ''k''
       \<and> s_apiVersion st = JStr ''2025-01-01-preview''
       \<and> s_deployment st = ''model-router''"
proof -
  let ?opts = "JObj [(''apiKey'', JStr ''k'')]"
  let ?az = "JObj [(''options'', ?opts)]"
  let ?config = "JObj [(''provider'', JObj [(''azure'', ?az)])]"
  have h: "optional_get (optional_get (Some ?config) ''provider'') ''azure'' = Some ?az
        \<and> get_prop ?az ''options'' = Some ?opts \<and> truthy ?opts"
    by (simp add: optional_get_def)
  from getExistingAzureSettings_fallbacks [of ?config] h
  obtain st where st: "getExistingAzureSettings ?config = Some st"
    and "\<not> truthy_opt (get_prop ?opts ''baseURL'') \<longrightarrow> s_baseUrl st = JStr []"
    and "\<not> truthy_opt (get_prop ?opts ''apiVersion'') \<longrightarrow>
           s_apiVersion st = JStr ''2025-01-01-preview''"
    and "get_prop ?az ''models'' = None \<or> get_prop ?az ''models'' = Some (JObj []) \<longrightarrow>
           s_deployment st = ''model-router''"
    and "\<forall>x. get_prop ?opts ''apiKey'' = Some x \<and> truthy x \<longrightarrow> s_apiKey st = x"
    by blast
  then have "s_baseUrl st = JStr [] \<and> s_apiKey st = JStr ''k''
       \<and> s_apiVersion st = JStr ''2025-01-01-preview''
       \<and> s_deployment st = ''model-router''"
    by (simp add: truthy_opt_def)
  with st show ?thesis by blast
qed

section \<open>The merge step\<close>

lemma set_prop_is_object:
  "is_object x \<Longrightarrow> \<exists>y. set_prop x k a = Inr y"
  by (cases x) simp_all

lemma set_prop_not_object:
  "\<not> is_object x \<Longrightarrow> set_prop x k a = Inl TypeError"
  by (cases x) simp_all

lemma set_prop_Inr:
  assumes "set_prop x k a = Inr y"
  shows "get_prop y k = Some a"
    and "k' \<noteq> k \<Longrightarrow> get_prop y k' = get_prop x k'"
    and "is_object x" and "is_object y"
    and "elements y = elements x"
  using assms by (cases x; auto simp: update_conv')+

lemma set_prop_same:
  "is_object x \<Longrightarrow> get_prop x k = Some a \<Longrightarrow> set_prop x k a = Inr x"
  by (cases x) (simp_all add: update_triv)

lemma truthy_is_object: "is_object x \<Longrightarrow> truthy x"
  by (cases x) simp_all

lemma falsy_no_props: "\<not> truthy x \<Longrightarrow> get_prop x k = None \<and> elements x = []"
  by (cases x) simp_all

lemma js_or_object: "is_object p \<Longrightarrow> js_or (Some p) y = p"
  by (simp add: js_or_def truthy_is_object)

lemma merge_step_Inr_iff:
  "(\<exists>cfg. merge_step doc b k d v = Inr cfg) \<longleftrightarrow> mergeable doc"
proof -
  define config where "config = (if truthy doc then doc else JObj [])"
  show ?thesis
  proof (cases "is_object config")
    case False
    then show ?thesis
      unfolding merge_step_def mergeable_def config_def [symmetric] Let_def
      by (simp add: set_prop_not_object)
  next
    case True
    then obtain c1 where
      c1: "set_prop config ''$schema'' (JStr ''https://opencode.ai/config.json'') = Inr c1"
      using set_prop_is_object by blast
    then obtain c2 where c2: "set_prop c1 ''model'' (JStr (''azure/'' @ d)) = Inr c2"
      using set_prop_is_object set_prop_Inr(4) by blast
    have p: "get_prop c2 ''provider'' = get_prop config ''provider''"
      using set_prop_Inr(2) [OF c1, of "''provider''"] set_prop_Inr(2) [OF c2, of "''provider''"]
      by simp
    define pr where "pr = js_or (get_prop config ''provider'') (JObj [])"
    obtain c3 where c3: "set_prop c2 ''provider'' pr = Inr c3"
      using set_prop_is_object set_prop_Inr(4) [OF c2] by blast
    show ?thesis
    proof (cases "is_object pr")
      case False
      then show ?thesis
        unfolding merge_step_def mergeable_def config_def [symmetric] Let_def
        using True c1 c2 c3 p by (simp add: pr_def [symmetric] set_prop_not_object)
    next
      case po: True
      then obtain p1 where p1: "set_prop pr ''azure'' (azure_entry b k d v) = Inr p1"
        using set_prop_is_object by blast
      obtain c4 where c4: "set_prop c3 ''provider'' p1 = Inr c4"
        using set_prop_is_object set_prop_Inr(4) [OF c3] by blast
      show ?thesis
        unfolding merge_step_def mergeable_def config_def [symmetric] Let_def
        using True c1 c2 c3 p po p1 c4 by (simp add: pr_def [symmetric])
    qed
  qed
qed

lemma merge_step_InrD:
  assumes "merge_step doc b k d v = Inr cfg"
  obtains c1 c2 c3 p1 where
    "set_prop (if truthy doc then doc else JObj []) ''$schema''
        (JStr ''https://opencode.ai/config.json'') = Inr c1"
    "set_prop c1 ''model'' (JStr (''azure/'' @ d)) = Inr c2"
    "set_prop c2 ''provider'' (js_or (get_prop c2 ''provider'') (JObj [])) = Inr c3"
    "set_prop (js_or (get_prop c2 ''provider'') (JObj [])) ''azure'' (azure_entry b k d v) = Inr p1"
    "set_prop c3 ''provider'' p1 = Inr cfg"
  using assms unfolding merge_step_def Let_def
  by (auto split: sum.splits)

lemma merge_step_result:
  assumes m: "merge_step doc b k d v = Inr cfg"
  shows "merge_step cfg b k d v = Inr cfg"
    and "get_prop cfg ''$schema'' = Some (JStr ''https://opencode.ai/config.json'')"
    and "get_prop cfg ''model'' = Some (JStr (''azure/'' @ d))"
    and "\<exists>p. get_prop cfg ''provider'' = Some p
            \<and> is_object p
            \<and> get_prop p ''azure'' = Some (azure_entry b k d v)
            \<and> (\<forall>key. key \<noteq> ''azure'' \<longrightarrow>
                  get_prop p key = get_prop (js_or (get_prop doc ''provider'') (JObj [])) key)"
    and "key \<notin> {''$schema'', ''model'', ''provider''} \<Longrightarrow> get_prop cfg key = get_prop doc key"
    and "elements cfg = elements doc"
    and "is_object cfg"
proof -
  define config where "config = (if truthy doc then doc else JObj [])"
  from m obtain c1 c2 c3 p1 where
    c1: "set_prop config ''$schema'' (JStr ''https://opencode.ai/config.json'') = Inr c1"
    and c2: "set_prop c1 ''model'' (JStr (''azure/'' @ d)) = Inr c2"
    and c3: "set_prop c2 ''provider'' (js_or (get_prop c2 ''provider'') (JObj [])) = Inr c3"
    and p1: "set_prop (js_or (get_prop c2 ''provider'') (JObj [])) ''azure''
                (azure_entry b k d v) = Inr p1"
    and c4: "set_prop c3 ''provider'' p1 = Inr cfg"
    unfolding config_def by (rule merge_step_InrD)
  have cfg_doc: "get_prop config key' = get_prop doc key'" "elements config = elements doc"
    for key'
    unfolding config_def using falsy_no_props [of doc] by auto
  have schema: "get_prop cfg ''$schema'' = Some (JStr ''https://opencode.ai/config.json'')"
    using set_prop_Inr(1) [OF c1] set_prop_Inr(2) [OF c2, of "''$schema''"]
      set_prop_Inr(2) [OF c3, of "''$schema''"] set_prop_Inr(2) [OF c4, of "''$schema''"]
    by simp
  have model: "get_prop cfg ''model'' = Some (JStr (''azure/'' @ d))"
    using set_prop_Inr(1) [OF c2]
      set_prop_Inr(2) [OF c3, of "''model''"] set_prop_Inr(2) [OF c4, of "''model''"]
    by simp
  have prov: "get_prop cfg ''provider'' = Some p1"
    using set_prop_Inr(1) [OF c4] .
  have az: "get_prop p1 ''azure'' = Some (azure_entry b k d v)"
    using set_prop_Inr(1) [OF p1] .
  have obj: "is_object cfg" "is_object p1"
    using set_prop_Inr(4) [OF c4] set_prop_Inr(4) [OF p1] by simp_all
  have c2prov: "get_prop c2 ''provider'' = get_prop doc ''provider''"
    using set_prop_Inr(2) [OF c1, of "''provider''"] set_prop_Inr(2) [OF c2, of "''provider''"]
      cfg_doc(1) by simp
  show "get_prop cfg ''$schema'' = Some (JStr ''https://opencode.ai/config.json'')"
    by (rule schema)
  show "get_prop cfg ''model'' = Some (JStr (''azure/'' @ d))"
    by (rule model)
  show "\<exists>p. get_prop cfg ''provider'' = Some p
            \<and> is_object p
            \<and> get_prop p ''azure'' = Some (azure_entry b k d v)
            \<and> (\<forall>key. key \<noteq> ''azure'' \<longrightarrow>
                  get_prop p key = get_prop (js_or (get_prop doc ''provider'') (JObj [])) key)"
    using prov az obj(2) set_prop_Inr(2) [OF p1] c2prov by auto
  show "get_prop cfg key = get_prop doc key"
    if "key \<notin> {''$schema'', ''model'', ''provider''}"
    using that set_prop_Inr(2) [OF c1, of key] set_prop_Inr(2) [OF c2, of key]
      set_prop_Inr(2) [OF c3, of key] set_prop_Inr(2) [OF c4, of key] cfg_doc(1) [of key]
    by simp
  show "elements cfg = elements doc"
    using set_prop_Inr(5) [OF c1] set_prop_Inr(5) [OF c2] set_prop_Inr(5) [OF c3]
      set_prop_Inr(5) [OF c4] cfg_doc(2) by simp
  show "is_object cfg" by (rule obj(1))
  show "merge_step cfg b k d v = Inr cfg"
  proof -
    have 1: "set_prop cfg ''$schema'' (JStr ''https://opencode.ai/config.json'') = Inr cfg"
      using obj(1) schema by (rule set_prop_same)
    have 2: "set_prop cfg ''model'' (JStr (''azure/'' @ d)) = Inr cfg"
      using obj(1) model by (rule set_prop_same)
    have 3: "js_or (get_prop cfg ''provider'') (JObj []) = p1"
      using prov obj(2) by (simp add: js_or_object)
    have 4: "set_prop cfg ''provider'' p1 = Inr cfg"
      using obj(1) prov by (rule set_prop_same)
    have 5: "set_prop p1 ''azure'' (azure_entry b k d v) = Inr p1"
      using obj(2) az by (rule set_prop_same)
    show ?thesis
      unfolding merge_step_def Let_def
      using truthy_is_object [OF obj(1)] 1 2 3 4 5 by simp
  qed
qed

text \<open>
  Claim C3. The merge step completes exactly on the documents that hold properties
  (on a truthy primitive, or when \<^verbatim>\<open>provider\<close> is one, an assignment throws and nothing
  is merged). Whenever it completes with a document \<open>cfg\<close>: applying it to \<open>cfg\<close> again
  with the same values gives \<open>cfg\<close> itself, so in particular the same \<^verbatim>\<open>$schema\<close>,
  \<^verbatim>\<open>model\<close> and \<^verbatim>\<open>provider.azure\<close>; every top-level key other than \<^verbatim>\<open>$schema\<close>, \<^verbatim>\<open>model\<close>
  and \<^verbatim>\<open>provider\<close> has the value it had in the starting document (and an array keeps its
  elements); and \<^verbatim>\<open>provider.azure\<close> is the new entry whatever was there before, while the
  other keys of \<^verbatim>\<open>provider\<close> stay.
\<close>

theorem merge_step_idempotent_frame:
  "((\<exists>cfg. merge_step doc b k d v = Inr cfg) \<longleftrightarrow> mergeable doc)
   \<and> (\<forall>cfg. merge_step doc b k d v = Inr cfg \<longrightarrow>
         merge_step cfg b k d v = Inr cfg
       \<and> get_prop cfg ''$schema'' = Some (JStr ''https://opencode.ai/config.json'')
       \<and> get_prop cfg ''model'' = Some (JStr (''azure/'' @ d))
       \<and> (\<exists>p. get_prop cfg ''provider'' = Some p
              \<and> get_prop p ''azure'' = Some (azure_entry b k d v)
              \<and> (\<forall>key. key \<noteq> ''azure'' \<longrightarrow>
                    get_prop p key
                      = get_prop (js_or (get_prop doc ''provider'') (JObj [])) key))
       \<and> (\<forall>key. key \<notin> {''$schema'', ''model'', ''provider''} \<longrightarrow>
              get_prop cfg key = get_prop doc key)
       \<and> elements cfg = elements doc)"
proof (intro conjI allI impI)
  show "(\<exists>cfg. merge_step doc b k d v = Inr cfg) \<longleftrightarrow> mergeable doc"
    by (rule merge_step_Inr_iff)
next
  fix cfg
  assume m: "merge_step doc b k d v = Inr cfg"
  show "merge_step cfg b k d v = Inr cfg"
    using m by (rule merge_step_result(1))
  show "get_prop cfg ''$schema'' = Some (JStr ''https://opencode.ai/config.json'')"
    using m by (rule merge_step_result(2))
  show "get_prop cfg ''model'' = Some (JStr (''azure/'' @ d))"
    using m by (rule merge_step_result(3))
  show "\<exists>p. get_prop cfg ''provider'' = Some p
              \<and> get_prop p ''azure'' = Some (azure_entry b k d v)
              \<and> (\<forall>key. key \<noteq> ''azure'' \<longrightarrow>
                    get_prop p key
                      = get_prop (js_or (get_prop doc ''provider'') (JObj [])) key)"
    using merge_step_result(4) [OF m] by blast
  show "elements cfg = elements doc"
    using m by (rule merge_step_result(6))
next
  fix cfg key
  assume m: "merge_step doc b k d v = Inr cfg"
    and "key \<notin> {''$schema'', ''model'', ''provider''}"
  then show "get_prop cfg key = get_prop doc key"
    by (rule merge_step_result(5))
qed

theorem merge_step_idempotent_frame_witness:
  "\<exists>cfg. merge_step stored_document ''https://foo.openai.azure.com/openai'' ''secret''
            ''gpt-5'' ''2024-10-01'' = Inr cfg
     \<and> merge_step cfg ''https://foo.openai.azure.com/openai'' ''secret''
            ''gpt-5'' ''2024-10-01'' = Inr cfg
     \<and> get_prop cfg ''agent''
         = Some (JObj [(''build'', JObj [(''mode'', JStr ''primary'')])])
     \<and> (\<exists>p. get_prop cfg ''provider'' = Some p
            \<and> get_prop p ''azure''
                = Some (azure_entry ''https://foo.openai.azure.com/openai'' ''secret''
                          ''gpt-5'' ''2024-10-01'')
            \<and> get_prop p ''other'' = Some (JObj []))"
proof -
  let ?m = "\<lambda>doc. merge_step doc ''https://foo.openai.azure.com/openai'' ''secret''
            ''gpt-5'' ''2024-10-01''"
  note t = merge_step_idempotent_frame [of stored_document
      "''https://foo.openai.azure.com/openai''" "''secret''" "''gpt-5''" "''2024-10-01''"]
  have "mergeable stored_document"
    by (simp add: mergeable_def stored_document_def js_or_def)
  with t obtain cfg where cfg: "?m stored_document = Inr cfg" by blast
  with t have 1: "?m cfg = Inr cfg"
    and 2: "get_prop cfg ''agent'' = get_prop stored_document ''agent''"
    and 3: "\<exists>p. get_prop cfg ''provider'' = Some p
              \<and> get_prop p ''azure''
                  = Some (azure_entry ''https://foo.openai.azure.com/openai'' ''secret''
                          ''gpt-5'' ''2024-10-01'')
              \<and> (\<forall>key. key \<noteq> ''azure'' \<longrightarrow>
                    get_prop p key
                      = get_prop (js_or (get_prop stored_document ''provider'') (JObj [])) key)"
    by simp_all
  from 3 obtain p where p: "get_prop cfg ''provider'' = Some p"
    "get_prop p ''azure'' = Some (azure_entry ''https://foo.openai.azure.com/openai''
        ''secret'' ''gpt-5'' ''2024-10-01'')"
    "get_prop p ''other''
       = get_prop (js_or (get_prop stored_document ''provider'') (JObj [])) ''other''"
    by auto
  from p(3) have "get_prop p ''other'' = Some (JObj [])"
    by (simp add: stored_document_def js_or_def)
  with cfg 1 2 p(1,2) show ?thesis
    by (simp add: stored_document_def)
qed

section \<open>Persisting and loading again\<close>

lemma get_prop_json_image:
  "plain_object x \<Longrightarrow> get_prop (json_image x) k = map_option json_image (get_prop x k)"
  by (cases x) (simp_all add: map_of_map)

lemma json_image_azure_entry: "json_image (azure_entry b k d v) = azure_entry b k d v"
  by (simp add: azure_entry_def)

lemma optional_get_plain:
  "plain_object x \<Longrightarrow> optional_get (Some x) k = get_prop x k"
  by (cases x) (simp_all add: optional_get_def)

lemma plain_object_json_image: "plain_object (json_image x) = plain_object x"
  by (cases x) simp_all

lemma plain_azure_entry: "plain_object (azure_entry b k d v)"
  by (simp add: azure_entry_def)

lemma azure_entry_options:
  "get_prop (azure_entry b k d v) ''options''
      = Some (JObj [(''baseURL'', JStr b), (''apiKey'', JStr k),
                    (''useDeploymentBasedUrls'', JBool True), (''apiVersion'', JStr v)])"
  by (simp add: azure_entry_def)

lemma azure_entry_models:
  "get_prop (azure_entry b k d v) ''models''
      = Some (JObj [(d, JObj [(''name'', JStr d),
                           (''limit'', JObj [(''context'', JNum ''200000''),
                                             (''output'', JNum ''16384'')])])])"
  by (simp add: azure_entry_def)

lemma js_or_JStr: "js_or (Some (JStr s)) (JStr t) = (if s \<noteq> [] then JStr s else JStr t)"
  by (simp add: js_or_def)

lemma extract_after_load:
  assumes px: "plain_object x" and pr: "get_prop x ''provider'' = Some p" and pp: "plain_object p"
    and az: "get_prop p ''azure'' = Some (azure_entry b k d v)"
    and d: "d \<noteq> []" and v: "v \<noteq> []"
  shows "getExistingAzureSettings (json_image x) =
     Some \<lparr>s_baseUrl = JStr b, s_apiKey = JStr k, s_deployment = d, s_apiVersion = JStr v\<rparr>"
proof -
  have 1: "get_prop (json_image x) ''provider'' = Some (json_image p)"
    using px pr by (simp add: get_prop_json_image)
  have 2: "get_prop (json_image p) ''azure'' = Some (azure_entry b k d v)"
    using pp az by (simp add: get_prop_json_image json_image_azure_entry)
  have chain: "optional_get (optional_get (Some (json_image x)) ''provider'') ''azure''
      = Some (azure_entry b k d v)"
    using 1 2 px pp
    by (simp add: optional_get_plain plain_object_json_image)
  let ?opts = "JObj [(''baseURL'', JStr b), (''apiKey'', JStr k),
                    (''useDeploymentBasedUrls'', JBool True), (''apiVersion'', JStr v)]"
  have t: "truthy ?opts" by simp
  note e = getExistingAzureSettings_Some [OF chain azure_entry_options t]
  have b1: "js_or (get_prop ?opts ''baseURL'') (JStr []) = JStr b"
    by (simp add: js_or_JStr)
  have b2: "js_or (get_prop ?opts ''apiKey'') (JStr []) = JStr k"
    by (simp add: js_or_JStr)
  have b3: "js_or (get_prop ?opts ''apiVersion'') (JStr ''2025-01-01-preview'') = JStr v"
    using v by (simp add: js_or_JStr)
  have b4: "Object_keys (js_or (get_prop (azure_entry b k d v) ''models'') (JObj [])) = [d]"
    by (simp add: azure_entry_models js_or_def)
  show ?thesis
    unfolding e b1 b2 b3 b4 using d by simp
qed

lemma set_prop_plain:
  "set_prop x k a = Inr y \<Longrightarrow> plain_object y = plain_object x"
  by (cases x) auto

lemma plain_is_object: "plain_object x \<Longrightarrow> is_object x"
  by (cases x) simp_all

lemma merge_step_plain:
  assumes m: "merge_step doc b k d v = Inr cfg" and pd: "plain_document doc"
  shows "plain_object cfg"
    and "\<exists>p. get_prop cfg ''provider'' = Some p \<and> plain_object p
            \<and> get_prop p ''azure'' = Some (azure_entry b k d v)"
proof -
  define config where "config = (if truthy doc then doc else JObj [])"
  from m obtain c1 c2 c3 p1 where
    c1: "set_prop config ''$schema'' (JStr ''https://opencode.ai/config.json'') = Inr c1"
    and c2: "set_prop c1 ''model'' (JStr (''azure/'' @ d)) = Inr c2"
    and c3: "set_prop c2 ''provider'' (js_or (get_prop c2 ''provider'') (JObj [])) = Inr c3"
    and p1: "set_prop (js_or (get_prop c2 ''provider'') (JObj [])) ''azure''
                (azure_entry b k d v) = Inr p1"
    and c4: "set_prop c3 ''provider'' p1 = Inr cfg"
    unfolding config_def by (rule merge_step_InrD)
  from pd have pc: "plain_object config"
    and pp: "plain_object (js_or (get_prop config ''provider'') (JObj []))"
    unfolding plain_document_def config_def [symmetric] Let_def by simp_all
  have c2prov: "get_prop c2 ''provider'' = get_prop config ''provider''"
    using set_prop_Inr(2) [OF c1, of "''provider''"] set_prop_Inr(2) [OF c2, of "''provider''"]
    by simp
  show "plain_object cfg"
    using pc set_prop_plain [OF c1] set_prop_plain [OF c2] set_prop_plain [OF c3]
      set_prop_plain [OF c4] by simp
  have "plain_object p1"
    using pp set_prop_plain [OF p1] c2prov by simp
  then show "\<exists>p. get_prop cfg ''provider'' = Some p \<and> plain_object p
            \<and> get_prop p ''azure'' = Some (azure_entry b k d v)"
    using set_prop_Inr(1) [OF c4] set_prop_Inr(1) [OF p1] by blast
qed

lemma plain_document_mergeable: "plain_document doc \<Longrightarrow> mergeable doc"
  by (simp add: plain_document_def mergeable_def Let_def plain_is_object)

lemma mcp_step_provider:
  "get_prop (mcp_step cfg path) ''provider'' = get_prop cfg ''provider''
   \<and> plain_object (mcp_step cfg path) = plain_object cfg"
proof -
  have k: "''provider'' \<noteq> ''mcp''" by simp
  show ?thesis
    unfolding mcp_step_def Let_def
    by (auto split: sum.splits dest: set_prop_plain
        simp: set_prop_Inr(2) [OF _ k])
qed

text \<open>
  Claim C4, amended. Let the platform's \<^verbatim>\<open>JSON.parse\<close> undo its \<^verbatim>\<open>JSON.stringify\<close>
  and let no file-system call fail. For every loaded document that is falsy or an
  object (no array) whose \<^verbatim>\<open>provider\<close> is falsy or an object (no array), every
  \<open>baseUrl\<close> and \<open>apiKey\<close> and every non-empty \<open>deployment\<close> and \<open>apiVersion\<close>: the
  commit of \<^verbatim>\<open>main\<close> (merge step, marketplace entry, write) leaves a file from which
  \<^verbatim>\<open>loadExistingConfig\<close> and \<^verbatim>\<open>getExistingAzureSettings\<close> return exactly these four
  values, the deployment as the first key of \<^verbatim>\<open>models\<close>.
\<close>

theorem commit_load_roundtrip:
  assumes rt: "json_roundtrip (JSON_parse env) (JSON_stringify env)"
    and fs: "\<forall>f. \<not> fs_fails env f"
    and pd: "plain_document doc"
    and d: "deployment_of s \<noteq> []" and v: "apiVersion_of s \<noteq> []"
  shows "\<exists>content. final_disk (commit env doc s tr) = Some content
     \<and> outcome (commit env doc s tr) = Exit 0
     \<and> getExistingAzureSettings (loadExistingConfig (JSON_parse env) (Some content))
         = Some \<lparr>s_baseUrl = JStr (baseUrl_of s), s_apiKey = JStr (apiKey_of s),
                 s_deployment = deployment_of s, s_apiVersion = JStr (apiVersion_of s)\<rparr>"
proof -
  from pd obtain cfg where
    m: "merge_step doc (baseUrl_of s) (apiKey_of s) (deployment_of s) (apiVersion_of s) = Inr cfg"
    using merge_step_Inr_iff plain_document_mergeable by blast
  define cfg1 where "cfg1 = (if npm_ok env then mcp_step cfg (mcpPath env) else cfg)"
  have c: "commit env doc s tr =
      \<lparr>outcome = Exit 0,
       effects = (tr @ [Fs MkdirConfigDir, Fs MkdirMcpDir, McpInstall, Fs WriteConfig])
                  @ [BinaryInstall],
       final_disk = Some (JSON_stringify env cfg1)\<rparr>"
    using fs m unfolding commit_def cfg1_def by (simp add: Let_def)
  from merge_step_plain [OF m pd] obtain p where
    pc: "plain_object cfg" and pr: "get_prop cfg ''provider'' = Some p"
    and pp: "plain_object p" and az: "get_prop p ''azure''
      = Some (azure_entry (baseUrl_of s) (apiKey_of s) (deployment_of s) (apiVersion_of s))"
    by blast
  have pc1: "plain_object cfg1" and pr1: "get_prop cfg1 ''provider'' = Some p"
    unfolding cfg1_def using pc pr mcp_step_provider [of cfg "mcpPath env"] by auto
  have "loadExistingConfig (JSON_parse env) (Some (JSON_stringify env cfg1)) = json_image cfg1"
    using rt by (simp add: loadExistingConfig_def json_roundtrip_def)
  then have "getExistingAzureSettings
        (loadExistingConfig (JSON_parse env) (Some (JSON_stringify env cfg1)))
      = Some \<lparr>s_baseUrl = JStr (baseUrl_of s), s_apiKey = JStr (apiKey_of s),
                 s_deployment = deployment_of s, s_apiVersion = JStr (apiVersion_of s)\<rparr>"
    using extract_after_load [OF pc1 pr1 pp az d v] by simp
  with c show ?thesis by simp
qed

theorem commit_load_roundtrip_witness:
  "\<exists>content. final_disk (commit first_run stored_document example_settled []) = Some content
     \<and> outcome (commit first_run stored_document example_settled []) = Exit 0
     \<and> getExistingAzureSettings (loadExistingConfig Some (Some content))
         = Some \<lparr>s_baseUrl = JStr ''https://foo.openai.azure.com/openai'',
                 s_apiKey = JStr ''secret'', s_deployment = ''gpt-5'',
                 s_apiVersion = JStr ''2024-10-01''\<rparr>"
proof -
  have rt: "json_roundtrip (JSON_parse first_run) (JSON_stringify first_run)"
    by (simp add: json_roundtrip_def first_run_def)
  have fs: "\<forall>f. \<not> fs_fails first_run f"
    by (simp add: first_run_def)
  have pd: "plain_document stored_document"
    by (simp add: plain_document_def stored_document_def js_or_def)
  have d: "deployment_of example_settled \<noteq> []" and v: "apiVersion_of example_settled \<noteq> []"
    by (simp_all add: example_settled_def)
  have p: "JSON_parse first_run = Some" by (simp add: first_run_def)
  have s: "baseUrl_of example_settled = ''https://foo.openai.azure.com/openai''"
    "apiKey_of example_settled = ''secret''" "deployment_of example_settled = ''gpt-5''"
    "apiVersion_of example_settled = ''2024-10-01''"
    by (simp_all add: example_settled_def)
  from commit_load_roundtrip [OF rt fs pd d v, of "[]"]
  show ?thesis
    unfolding p s .
qed

lemma commit_ok:
  assumes "\<forall>f. \<not> fs_fails env f"
    and "merge_step doc (baseUrl_of s) (apiKey_of s) (deployment_of s) (apiVersion_of s) = Inr cfg"
  shows "final_disk (commit env doc s tr)
     = Some (JSON_stringify env (if npm_ok env then mcp_step cfg (mcpPath env) else cfg))"
  using assms unfolding commit_def by (simp add: Let_def)

text \<open>
  Claim C4, as stated, fails. (1) The stored document is the array \<^verbatim>\<open>[]\<close>: the merge
  assigns named properties to the array, \<^verbatim>\<open>JSON.stringify\<close> writes none of them, and
  nothing is read back. (2) With no stored document and the empty \<open>apiVersion\<close>, the
  version read back is the fallback \<^verbatim>\<open>2025-01-01-preview\<close>. (3) With the empty
  \<open>deployment\<close>, the deployment read back is the fallback \<^verbatim>\<open>model-router\<close>.
\<close>

theorem commit_load_roundtrip_fails:
  "getExistingAzureSettings
     (loadExistingConfig Some (final_disk (commit first_run (JArr [] []) example_settled [])))
     = None
   \<and> map_option s_apiVersion (getExistingAzureSettings
       (loadExistingConfig Some
          (final_disk (commit first_run JNull (example_settled\<lparr>apiVersion_of := []\<rparr>) []))))
     = Some (JStr ''2025-01-01-preview'')
   \<and> map_option s_deployment (getExistingAzureSettings
       (loadExistingConfig Some
          (final_disk (commit first_run JNull (example_settled\<lparr>deployment_of := []\<rparr>) []))))
     = Some ''model-router''"
proof -
  have fs: "\<forall>f. \<not> fs_fails first_run f"
    by (simp add: first_run_def)
  have env: "JSON_stringify first_run = json_image" "npm_ok first_run"
    by (simp_all add: first_run_def)
  have ld: "loadExistingConfig Some (Some x) = x" for x :: jsval
    by (simp add: loadExistingConfig_def)
  have 1: "getExistingAzureSettings
     (loadExistingConfig Some (final_disk (commit first_run (JArr [] []) example_settled [])))
     = None"
  proof -
    define cfg where "cfg = JArr [] [(''$schema'', JStr ''https://opencode.ai/config.json''),
        (''model'', JStr (''azure/'' @ deployment_of example_settled)),
        (''provider'', JObj [(''azure'', azure_entry (baseUrl_of example_settled)
            (apiKey_of example_settled) (deployment_of example_settled)
            (apiVersion_of example_settled))])]"
    have m: "merge_step (JArr [] []) (baseUrl_of example_settled)
        (apiKey_of example_settled) (deployment_of example_settled)
        (apiVersion_of example_settled) = Inr cfg"
      unfolding cfg_def by (simp add: merge_step_def js_or_def)
    obtain qs where "mcp_step cfg (mcpPath first_run) = JArr [] qs"
      unfolding cfg_def mcp_step_def Let_def by (simp add: js_or_def)
    then have "final_disk (commit first_run (JArr [] []) example_settled []) = Some (JArr [] [])"
      unfolding commit_ok [OF fs m] using env by simp
    then show ?thesis
      by (simp add: ld getExistingAzureSettings_def optional_get_def truthy_opt_def)
  qed
  have m0: "merge_step JNull b k d v
      = Inr (JObj [(''$schema'', JStr ''https://opencode.ai/config.json''),
                   (''model'', JStr (''azure/'' @ d)),
                   (''provider'', JObj [(''azure'', azure_entry b k d v)])])" for b k d v
    by (simp add: merge_step_def js_or_def)
  have mc: "\<exists>m. mcp_step (JObj [(''$schema'', x), (''model'', y), (''provider'', z)]) path
      = JObj [(''$schema'', x), (''model'', y), (''provider'', z), (''mcp'', m)]" for x y z path
    by (simp add: mcp_step_def js_or_def)
  have ex: "getExistingAzureSettings
        (JObj [(''$schema'', x), (''model'', y),
               (''provider'', JObj [(''azure'', azure_entry b k d v)]), (''mcp'', m)])
      = Some \<lparr>s_baseUrl = js_or (Some (JStr b)) (JStr []),
           s_apiKey = js_or (Some (JStr k)) (JStr []),
           s_deployment = (if d \<noteq> [] then d else ''model-router''),
           s_apiVersion = js_or (Some (JStr v)) (JStr ''2025-01-01-preview'')\<rparr>"
    for x y b k d v m
    by (simp add: getExistingAzureSettings_def optional_get_def truthy_opt_def azure_entry_def
        Let_def js_or_object)
  have 2: "map_option s_apiVersion (getExistingAzureSettings
       (loadExistingConfig Some
          (final_disk (commit first_run JNull (example_settled\<lparr>apiVersion_of := []\<rparr>) []))))
     = Some (JStr ''2025-01-01-preview'')"
  proof -
    obtain m where "mcp_step (JObj [(''$schema'', JStr ''https://opencode.ai/config.json''),
                   (''model'', JStr (''azure/'' @ ''gpt-5'')),
                   (''provider'', JObj [(''azure'', azure_entry
                       ''https://foo.openai.azure.com/openai'' ''secret'' ''gpt-5'' [])])])
           (mcpPath first_run)
       = JObj [(''$schema'', JStr ''https://opencode.ai/config.json''),
                   (''model'', JStr (''azure/'' @ ''gpt-5'')),
                   (''provider'', JObj [(''azure'', azure_entry
                       ''https://foo.openai.azure.com/openai'' ''secret'' ''gpt-5'' [])]),
                   (''mcp'', m)]"
      using mc by blast
    then show ?thesis
      unfolding commit_ok [OF fs m0] using env
      by (simp add: example_settled_def ld ex js_or_def json_image_azure_entry)
  qed
  have 3: "map_option s_deployment (getExistingAzureSettings
       (loadExistingConfig Some
          (final_disk (commit first_run JNull (example_settled\<lparr>deployment_of := []\<rparr>) []))))
     = Some ''model-router''"
  proof -
    obtain m where "mcp_step (JObj [(''$schema'', JStr ''https://opencode.ai/config.json''),
                   (''model'', JStr (''azure/'' @ [])),
                   (''provider'', JObj [(''azure'', azure_entry
                       ''https://foo.openai.azure.com/openai'' ''secret'' [] ''2024-10-01'')])])
           (mcpPath first_run)
       = JObj [(''$schema'', JStr ''https://opencode.ai/config.json''),
                   (''model'', JStr (''azure/'' @ [])),
                   (''provider'', JObj [(''azure'', azure_entry
                       ''https://foo.openai.azure.com/openai'' ''secret'' [] ''2024-10-01'')]),
                   (''mcp'', m)]"
      using mc by blast
    then show ?thesis
      unfolding commit_ok [OF fs m0] using env
      by (simp add: example_settled_def ld ex js_or_def json_image_azure_entry)
  qed
  from 1 2 3 show ?thesis by blast
qed

section \<open>Runs of the setup session\<close>

lemma stored_with_settings:
  "getExistingAzureSettings (stored_with ps) =
     Some \<lparr>s_baseUrl = js_or (map_of ps ''baseURL'') (JStr []),
           s_apiKey = js_or (map_of ps ''apiKey'') (JStr []),
           s_deployment = ''model-router'',
           s_apiVersion = js_or (map_of ps ''apiVersion'') (JStr ''2025-01-01-preview'')\<rparr>"
  by (simp add: getExistingAzureSettings_def stored_with_def optional_get_def truthy_opt_def
      Let_def js_or_def)

lemma first_run_load:
  "loadExistingConfig (JSON_parse (first_run\<lparr>disk := Some doc\<rparr>)) (disk (first_run\<lparr>disk := Some doc\<rparr>)) = doc"
  by (simp add: first_run_def loadExistingConfig_def)

text \<open>
  Claim C9 against the code. For the stored key \<^verbatim>\<open>abc\<close> the masked form is
  \<^verbatim>\<open>abc...abc\<close>: both slices are the whole key, and the prompt of \<^verbatim>\<open>askPassword\<close>
  shows it in full. The run below is the interactive one on a stored configuration with
  this key, up to the password prompt.
\<close>

theorem masked_short_key:
  "masked ''abc'' = ''abc...abc''
   \<and> askPassword_prompt ''API Key'' ''abc'' = ''API Key [abc...abc]: ''
   \<and> main (first_run\<lparr>disk := Some short_key_document, stdin := [Line []]\<rparr>)
       = \<lparr>outcome = Abandoned,
          effects = [FetchDefaults, Ask ''Endpoint'', AskPassword ''API Key'' ''abc...abc''],
          final_disk = Some short_key_document\<rparr>"
proof -
  have m: "masked ''abc'' = ''abc...abc''" by (simp add: masked_def)
  have p: "askPassword_prompt ''API Key'' ''abc'' = ''API Key [abc...abc]: ''"
    by (simp add: askPassword_prompt_def m)
  let ?env = "first_run\<lparr>disk := Some short_key_document, stdin := [Line []]\<rparr>"
  have l: "loadExistingConfig (JSON_parse ?env) (disk ?env) = short_key_document"
    by (simp add: first_run_def loadExistingConfig_def)
  have s: "getExistingAzureSettings short_key_document =
     Some \<lparr>s_baseUrl = JStr ''https://foo.openai.azure.com/openai'',
           s_apiKey = JStr ''abc'', s_deployment = ''model-router'',
           s_apiVersion = JStr ''2025-01-01-preview''\<rparr>"
    by (simp add: short_key_document_def stored_with_settings js_or_def)
  have g: "gather ?env (getExistingAzureSettings short_key_document) [FetchDefaults]
      = Stopped Abandoned [FetchDefaults, Ask ''Endpoint'', AskPassword ''API Key'' ''abc...abc'']"
    unfolding s
    by (simp add: gather_def first_run_def opt_field_def truthy_opt_def js_or_def Let_def
        gather_key_def askPassword_def m)
  have "main ?env = \<lparr>outcome = Abandoned,
          effects = [FetchDefaults, Ask ''Endpoint'', AskPassword ''API Key'' ''abc...abc''],
          final_disk = Some short_key_document\<rparr>"
    unfolding main_def l Let_def g by (simp add: first_run_def)
  with m p show ?thesis by blast
qed

lemma testConnection_resolves:
  assumes "URL_new platform
             (e @ ''/deployments/'' @ d @ ''/chat/completions?api-version='' @ v) = Some u"
    and "\<forall>c \<in> set (pathname u @ search u). \<not> invalid_path_char c"
    and "\<forall>c \<in> set k. \<not> invalid_header_char c"
  shows "\<exists>r. testConnection platform ev e k d v = Inr r
     \<and> (ok r \<longleftrightarrow> (\<exists>data. ev = Response 200 data))
     \<and> (ev = Timeout \<longrightarrow> r = \<lparr>ok = False, status = 0, body = ''Timeout''\<rparr>)"
  using assms by (cases ev) (auto simp: testConnection_def)

lemma testConnection_request_path:
  assumes "URL_new platform
             (e @ ''/deployments/'' @ d @ ''/chat/completions?api-version='' @ v) = Some u"
    and "c \<in> set (pathname u @ search u)" "invalid_path_char c"
  shows "testConnection platform ev e k d v = Inl TypeError"
proof -
  from assms(2,3) have "\<exists>c \<in> set (pathname u @ search u). invalid_path_char c" by blast
  with assms(1) show ?thesis by (simp add: testConnection_def)
qed

lemma schemeless_probe_url:
  "\<not> has_scheme (url_preprocess (''foo.openai.azure.com/openai'' @ ''/deployments/'' @
      ''model-router'' @ ''/chat/completions?api-version='' @ ''2025-01-01-preview''))"
  by (simp add: has_scheme_def url_preprocess_def c0_or_space_def tab_or_newline_def
      ascii_alpha_def scheme_char_def)

text \<open>
  Claim C7 against the code. For an endpoint without a scheme the \<^verbatim>\<open>URL\<close> constructor
  throws inside the promise's executor, whatever the network does: \<^verbatim>\<open>testConnection\<close>
  rejects instead of resolving to a result. The unattended run on a stored configuration
  with this endpoint ends in the handler of \<^verbatim>\<open>main()\<close>, with code 1.
\<close>

theorem testConnection_rejects:
  "testConnection platform ev ''foo.openai.azure.com/openai'' ''secret'' ''model-router''
       ''2025-01-01-preview'' = Inl TypeError
   \<and> main (first_run\<lparr>nonInteractive := True, disk := Some schemeless_document\<rparr>)
       = \<lparr>outcome = Exit 1,
          effects = [FetchDefaults,
                     TestConnection ''foo.openai.azure.com/openai'' ''secret'' ''model-router''
                       ''2025-01-01-preview''],
          final_disk = Some schemeless_document\<rparr>"
proof -
  have t: "testConnection p ev' ''foo.openai.azure.com/openai'' ''secret'' ''model-router''
       ''2025-01-01-preview'' = Inl TypeError" for p ev'
    unfolding testConnection_def URL_new_no_scheme [OF schemeless_probe_url] by simp
  let ?env = "first_run\<lparr>nonInteractive := True, disk := Some schemeless_document\<rparr>"
  have l: "loadExistingConfig (JSON_parse ?env) (disk ?env) = schemeless_document"
    by (simp add: first_run_def loadExistingConfig_def)
  have s: "getExistingAzureSettings schemeless_document =
     Some \<lparr>s_baseUrl = JStr ''foo.openai.azure.com/openai'',
           s_apiKey = JStr ''secret'', s_deployment = ''model-router'',
           s_apiVersion = JStr ''2025-01-01-preview''\<rparr>"
    by (simp add: schemeless_document_def stored_with_settings js_or_def)
  have g: "gather ?env (getExistingAzureSettings schemeless_document) [FetchDefaults]
      = Continue \<lparr>g_baseUrl = JStr ''foo.openai.azure.com/openai'',
                   g_deployment = ''model-router'',
                   g_apiVersion = JStr ''2025-01-01-preview'',
                   g_apiKey = JStr ''secret''\<rparr> [] [FetchDefaults]"
    unfolding s
    by (simp add: gather_def first_run_def opt_field_def truthy_opt_def)
  have st: "settled_of \<lparr>g_baseUrl = JStr ''foo.openai.azure.com/openai'',
                   g_deployment = ''model-router'',
                   g_apiVersion = JStr ''2025-01-01-preview'',
                   g_apiKey = JStr ''secret''\<rparr>
      = Some \<lparr>baseUrl_of = ''foo.openai.azure.com/openai'', apiKey_of = ''secret'',
               deployment_of = ''model-router'', apiVersion_of = ''2025-01-01-preview''\<rparr>"
    by (simp add: settled_of_def)
  have pr: "probe ?env \<lparr>baseUrl_of = ''foo.openai.azure.com/openai'', apiKey_of = ''secret'',
               deployment_of = ''model-router'', apiVersion_of = ''2025-01-01-preview''\<rparr>
             [] [FetchDefaults]
      = Stopped (Exit 1) [FetchDefaults,
                     TestConnection ''foo.openai.azure.com/openai'' ''secret'' ''model-router''
                       ''2025-01-01-preview'']"
    by (simp add: probe_def probe_call_def t probe_effect_def)
  have "main ?env = \<lparr>outcome = Exit 1,
          effects = [FetchDefaults,
                     TestConnection ''foo.openai.azure.com/openai'' ''secret'' ''model-router''
                       ''2025-01-01-preview''],
          final_disk = Some schemeless_document\<rparr>"
    unfolding main_def l Let_def g by (simp add: st pr)
  with t show ?thesis by blast
qed

text \<open>
  Claim C5, amended. In unattended mode, when there is no configuration file, or no
  stored endpoint (\<^verbatim>\<open>existingAzure?.baseUrl\<close> is not truthy), the process exits with
  code 1 right after the fetch of the defaults: no prompt, no connectivity probe, no
  file-system call, and the configuration file is as it was.
\<close>

theorem unattended_without_endpoint:
  assumes "nonInteractive env"
    and "disk env = None
         \<or> \<not> truthy_opt (opt_field s_baseUrl
               (getExistingAzureSettings (loadExistingConfig (JSON_parse env) (disk env))))"
  shows "main env = \<lparr>outcome = Exit 1, effects = [FetchDefaults], final_disk = disk env\<rparr>"
proof -
  have n: "getExistingAzureSettings JNull = None"
    by (simp add: getExistingAzureSettings_def optional_get_def truthy_opt_def)
  from assms(2) have "\<not> truthy_opt (opt_field s_baseUrl
               (getExistingAzureSettings (loadExistingConfig (JSON_parse env) (disk env))))"
    by (auto simp: loadExistingConfig_def n opt_field_def truthy_opt_def)
  with assms(1) have "gather env
      (getExistingAzureSettings (loadExistingConfig (JSON_parse env) (disk env))) [FetchDefaults]
      = Stopped (Exit 1) [FetchDefaults]"
    by (simp add: gather_def)
  then show ?thesis
    by (simp add: main_def Let_def)
qed

theorem unattended_without_endpoint_witness:
  "nonInteractive (first_run\<lparr>nonInteractive := True\<rparr>)
   \<and> disk (first_run\<lparr>nonInteractive := True\<rparr>) = None
   \<and> main (first_run\<lparr>nonInteractive := True\<rparr>)
       = \<lparr>outcome = Exit 1, effects = [FetchDefaults], final_disk = None\<rparr>"
proof -
  have 1: "nonInteractive (first_run\<lparr>nonInteractive := True\<rparr>)" by simp
  have 2: "disk (first_run\<lparr>nonInteractive := True\<rparr>) = None" by (simp add: first_run_def)
  from unattended_without_endpoint [OF 1 disjI1 [OF 2]] 1 2 show ?thesis by simp
qed

lemma gather_key_prompts_only:
  assumes "\<And>q m. \<not> P (AskPassword q m)"
  shows "gather_key tty k ins tr = Stopped out tr1 \<Longrightarrow> filter P tr1 = filter P tr"
    and "gather_key tty k ins tr = Continue a ins1 tr1 \<Longrightarrow> filter P tr1 = filter P tr"
  using assms by (auto simp: gather_key_def Let_def split: prompted.splits if_splits)

lemma gather_prompts_only:
  assumes a: "\<And>q. \<not> P (Ask q)" and b: "\<And>q m. \<not> P (AskPassword q m)"
  shows "gather env ex tr = Stopped out tr1 \<Longrightarrow> filter P tr1 = filter P tr"
    and "gather env ex tr = Continue g ins tr1 \<Longrightarrow> filter P tr1 = filter P tr"
  using a
  by (auto simp: gather_def Let_def
      split: if_splits option.splits jsval.splits phase.splits prod.splits
      dest!: gather_key_prompts_only [of P, OF b])

lemma gather_no_probe:
  "gather env ex tr = Stopped out tr1 \<Longrightarrow> filter is_probe tr1 = filter is_probe tr"
  "gather env ex tr = Continue g ins tr1 \<Longrightarrow> filter is_probe tr1 = filter is_probe tr"
  by (rule gather_prompts_only; simp)+

lemma gather_no_fs:
  assumes "gather env ex [FetchDefaults] = Continue g ins tr"
  shows "Fs f \<notin> set tr"
proof -
  have "filter (\<lambda>e. e = Fs f) tr = filter (\<lambda>e. e = Fs f) [FetchDefaults]"
    using assms by (rule gather_prompts_only(2) [rotated 2]) simp_all
  then have "filter (\<lambda>e. e = Fs f) tr = []" by simp
  then show ?thesis by (auto simp: filter_empty_conv)
qed

lemma probe_at_most_twice:
  "probe env s ins tr = Stopped out tr1 \<Longrightarrow>
     length (filter is_probe tr1) \<le> length (filter is_probe tr) + 2"
  "probe env s ins tr = Continue s1 ins1 tr1 \<Longrightarrow>
     length (filter is_probe tr1) \<le> length (filter is_probe tr) + 2"
  by (auto simp: probe_def Let_def probe_effect_def
      split: sum.splits if_splits option.splits prod.splits)

lemma commit_no_probe:
  "filter is_probe (effects (commit env doc s tr)) = filter is_probe tr"
  by (simp add: commit_def Let_def split: sum.splits)

lemma main_probes_at_most_twice:
  "length (filter is_probe (effects (main env))) \<le> 2"
proof -
  let ?ex = "getExistingAzureSettings (loadExistingConfig (JSON_parse env) (disk env))"
  show ?thesis
  proof (cases "gather env ?ex [FetchDefaults]")
    case (Stopped out tr)
    then show ?thesis
      using gather_no_probe(1) [OF Stopped] by (simp add: main_def Let_def)
  next
    case (Continue g ins tr)
    have tr: "filter is_probe tr = []"
      using gather_no_probe(2) [OF Continue] by simp
    show ?thesis
    proof (cases "settled_of g")
      case None
      with Continue tr show ?thesis by (simp add: main_def Let_def)
    next
      case (Some s)
      show ?thesis
      proof (cases "probe env s ins tr")
        case (Stopped out tr1)
        with Continue Some probe_at_most_twice(1) [OF Stopped] tr show ?thesis
          by (simp add: main_def Let_def)
      next
        case c: (Continue s1 ins1 tr1)
        with Continue Some probe_at_most_twice(2) [OF c] tr show ?thesis
          by (simp add: main_def Let_def commit_no_probe)
      qed
    qed
  qed
qed

lemma commit_effects:
  "\<exists>more. effects (commit env doc s tr) = tr @ more \<and> filter is_probe more = []"
  by (simp add: commit_def Let_def split: sum.splits)

lemma probe_retry_effects:
  assumes "\<not> nonInteractive env"
    and "probe_call env 0 s = Inr r0" "\<not> ok r0"
    and "ask (deployment_of s) ins = Some (d, ins1)"
    and "ask (apiVersion_of s) ins1 = Some (v, ins2)"
  shows "\<exists>more. filter is_probe more = []
     \<and> ((\<exists>out. probe env s ins tr = Stopped out
            (tr @ [probe_effect s, Ask ''Deployment name'', Ask ''API Version'',
                   probe_effect (s\<lparr>deployment_of := d, apiVersion_of := v\<rparr>)] @ more))
        \<or> (\<exists>ins3. probe env s ins tr = Continue (s\<lparr>deployment_of := d, apiVersion_of := v\<rparr>) ins3
            (tr @ [probe_effect s, Ask ''Deployment name'', Ask ''API Version'',
                   probe_effect (s\<lparr>deployment_of := d, apiVersion_of := v\<rparr>)] @ more)))"
  using assms
  by (auto simp: probe_def Let_def split: sum.splits option.splits)

text \<open>
  Claim C6. In interactive mode, when the first probe resolves to a failure and the two
  prompts that follow are answered, the program asks for the deployment and the API
  version only, and probes once more with the same endpoint and key: every such run has
  exactly two probes. When that probe fails too and the answer to the confirmation is
  not \<^verbatim>\<open>y\<close>, the process exits with code 1, with no file-system call, and the
  configuration file is as it was. \<open>tr\<close> is the trace of the prompts that gathered
  endpoint, key and deployment.
\<close>

theorem interactive_retry_decline:
  assumes interactive: "\<not> nonInteractive env"
    and gathered: "gather env
        (getExistingAzureSettings (loadExistingConfig (JSON_parse env) (disk env)))
        [FetchDefaults] = Continue g ins tr"
    and settled: "settled_of g = Some s"
    and first_fails: "probe_call env 0 s = Inr r0" "\<not> ok r0"
    and answers: "ask (deployment_of s) ins = Some (d, ins1)"
                 "ask (apiVersion_of s) ins1 = Some (v, ins2)"
  shows "prefix (tr @ [TestConnection (baseUrl_of s) (apiKey_of s) (deployment_of s)
                         (apiVersion_of s),
                       Ask ''Deployment name'', Ask ''API Version'',
                       TestConnection (baseUrl_of s) (apiKey_of s) d v])
           (effects (main env))
         \<and> length (filter is_probe (effects (main env))) = 2
         \<and> (\<forall>r1 cont ins3.
               probe_call env 1 (s\<lparr>deployment_of := d, apiVersion_of := v\<rparr>) = Inr r1
               \<and> \<not> ok r1
               \<and> ask ''N'' ins2 = Some (cont, ins3) \<and> toLowerCase cont \<noteq> ''y'' \<longrightarrow>
               main env =
                 \<lparr>outcome = Exit 1,
                  effects = tr @ [TestConnection (baseUrl_of s) (apiKey_of s) (deployment_of s)
                                    (apiVersion_of s),
                                  Ask ''Deployment name'', Ask ''API Version'',
                                  TestConnection (baseUrl_of s) (apiKey_of s) d v,
                                  Ask ''Save config anyway? (y/N)''],
                  final_disk = disk env\<rparr>
               \<and> (\<forall>f. Fs f \<notin> set (effects (main env))))"
proof (intro conjI allI impI)
  let ?s1 = "s\<lparr>deployment_of := d, apiVersion_of := v\<rparr>"
  let ?four = "[probe_effect s, Ask ''Deployment name'', Ask ''API Version'', probe_effect ?s1]"
  have four: "?four = [TestConnection (baseUrl_of s) (apiKey_of s) (deployment_of s)
                         (apiVersion_of s),
                       Ask ''Deployment name'', Ask ''API Version'',
                       TestConnection (baseUrl_of s) (apiKey_of s) d v]"
    by (simp add: probe_effect_def)
  have tr: "filter is_probe tr = []"
    using gather_no_probe(2) [OF gathered] by simp
  from probe_retry_effects [OF interactive first_fails answers, of tr]
  obtain more where more: "filter is_probe more = []"
    and p: "(\<exists>out. probe env s ins tr = Stopped out (tr @ ?four @ more))
        \<or> (\<exists>ins3. probe env s ins tr = Continue ?s1 ins3 (tr @ ?four @ more))"
    by blast
  have "\<exists>rest. effects (main env) = tr @ ?four @ rest \<and> filter is_probe rest = []"
  proof -
    from p show ?thesis
    proof
      assume "\<exists>out. probe env s ins tr = Stopped out (tr @ ?four @ more)"
      then show ?thesis
        using gathered settled more by (auto simp: main_def Let_def)
    next
      assume "\<exists>ins3. probe env s ins tr = Continue ?s1 ins3 (tr @ ?four @ more)"
      then obtain ins3 where c: "probe env s ins tr = Continue ?s1 ins3 (tr @ ?four @ more)"
        by blast
      obtain more2 where "effects (commit env
          (loadExistingConfig (JSON_parse env) (disk env)) ?s1 (tr @ ?four @ more))
          = (tr @ ?four @ more) @ more2" "filter is_probe more2 = []"
        using commit_effects by blast
      then show ?thesis
        using gathered settled more c by (auto simp: main_def Let_def)
    qed
  qed
  then obtain rest where rest: "effects (main env) = tr @ ?four @ rest"
    "filter is_probe rest = []" by blast
  show "prefix (tr @ [TestConnection (baseUrl_of s) (apiKey_of s) (deployment_of s)
                         (apiVersion_of s),
                       Ask ''Deployment name'', Ask ''API Version'',
                       TestConnection (baseUrl_of s) (apiKey_of s) d v])
           (effects (main env))"
    unfolding rest(1) four by (simp add: prefix_def)
  show "length (filter is_probe (effects (main env))) = 2"
    unfolding rest(1) using tr rest(2) by (simp add: probe_effect_def)
next
  fix r1 cont ins3
  assume a: "probe_call env 1 (s\<lparr>deployment_of := d, apiVersion_of := v\<rparr>) = Inr r1
               \<and> \<not> ok r1
               \<and> ask ''N'' ins2 = Some (cont, ins3) \<and> toLowerCase cont \<noteq> ''y''"
  have p: "probe env s ins tr =
      Stopped (Exit 1)
        (tr @ [TestConnection (baseUrl_of s) (apiKey_of s) (deployment_of s) (apiVersion_of s),
               Ask ''Deployment name'', Ask ''API Version'',
               TestConnection (baseUrl_of s) (apiKey_of s) d v,
               Ask ''Save config anyway? (y/N)''])"
    using interactive first_fails answers a
    by (simp add: probe_def Let_def probe_effect_def)
  show m: "main env =
           \<lparr>outcome = Exit 1,
            effects = tr @ [TestConnection (baseUrl_of s) (apiKey_of s) (deployment_of s)
                              (apiVersion_of s),
                            Ask ''Deployment name'', Ask ''API Version'',
                            TestConnection (baseUrl_of s) (apiKey_of s) d v,
                            Ask ''Save config anyway? (y/N)''],
            final_disk = disk env\<rparr>"
    using gathered settled p by (simp add: main_def Let_def)
  fix f
  show "Fs f \<notin> set (effects (main env))"
    unfolding m using gather_no_fs [OF gathered, of f] by simp
qed

lemma parse_bare_host:
  "parseAzureEndpoint p ''foo.openai.azure.com'' hardcoded_defaults
     = \<lparr>baseUrl = ''https://foo.openai.azure.com/openai'', deployment = ''model-router'',
        apiVersion = ''2025-01-01-preview''\<rparr>"
proof -
  have "\<not> has_scheme (url_preprocess ''foo.openai.azure.com'')"
    by (simp add: has_scheme_def url_preprocess_def c0_or_space_def tab_or_newline_def
        ascii_alpha_def scheme_char_def)
  then have "URL_new p ''foo.openai.azure.com'' = None"
    by (rule URL_new_no_scheme)
  then show ?thesis
    by (simp add: parseAzureEndpoint_catch hardcoded_defaults_def strip_trailing_slash_def
        startsWith_def endsWith_def)
qed

lemma probe_input_has_scheme: "has_scheme (url_preprocess probe_input)"
  by (simp add: probe_input_def has_scheme_def url_preprocess_def c0_or_space_def
      tab_or_newline_def ascii_alpha_def scheme_char_def)

lemma example_platform_probe: "example_platform probe_input = Some probe_url"
  by (simp add: example_platform_def probe_input_def portal_input_def)

lemma probe_unauthorized:
  "testConnection example_platform (Response 401 ''Unauthorized'')
      ''https://foo.openai.azure.com/openai'' ''secret'' ''model-router'' ''2025-01-01-preview''
     = Inr \<lparr>ok = False, status = 401, body = ''Unauthorized''\<rparr>"
proof -
  have u: "''https://foo.openai.azure.com/openai'' @ ''/deployments/'' @ ''model-router'' @
      ''/chat/completions?api-version='' @ ''2025-01-01-preview'' = probe_input"
    by (simp add: probe_input_def)
  have "URL_new example_platform probe_input = Some probe_url"
    by (simp add: URL_new_def probe_input_has_scheme example_platform_probe)
  then show ?thesis
    unfolding testConnection_def u
    by (simp add: invalid_header_char_def invalid_path_char_def pathname_def search_def
        probe_url_def)
qed

theorem interactive_retry_decline_witness:
  "main (first_run\<lparr>stdin := [Line ''foo.openai.azure.com'', Line ''secret'', Line [],
                               Line [], Line [], Line ''n'']\<rparr>)
     = \<lparr>outcome = Exit 1,
        effects = [FetchDefaults, Ask ''Endpoint'', AskPassword ''API Key'' [],
                   Ask ''Deployment name'',
                   TestConnection ''https://foo.openai.azure.com/openai'' ''secret''
                     ''model-router'' ''2025-01-01-preview'',
                   Ask ''Deployment name'', Ask ''API Version'',
                   TestConnection ''https://foo.openai.azure.com/openai'' ''secret''
                     ''model-router'' ''2025-01-01-preview'',
                   Ask ''Save config anyway? (y/N)''],
        final_disk = None\<rparr>"
proof -
  let ?env = "first_run\<lparr>stdin := [Line ''foo.openai.azure.com'', Line ''secret'', Line [],
                               Line [], Line [], Line ''n'']\<rparr>"
  let ?s = "\<lparr>baseUrl_of = ''https://foo.openai.azure.com/openai'', apiKey_of = ''secret'',
            deployment_of = ''model-router'', apiVersion_of = ''2025-01-01-preview''\<rparr>"
  let ?g = "\<lparr>g_baseUrl = JStr ''https://foo.openai.azure.com/openai'',
            g_deployment = ''model-router'',
            g_apiVersion = JStr ''2025-01-01-preview'', g_apiKey = JStr ''secret''\<rparr>"
  have l: "loadExistingConfig (JSON_parse ?env) (disk ?env) = JNull"
    by (simp add: first_run_def loadExistingConfig_def)
  have n: "getExistingAzureSettings JNull = None"
    by (simp add: getExistingAzureSettings_def optional_get_def truthy_opt_def)
  have e: "\<not> nonInteractive ?env" "isTTY ?env" "URL_platform ?env = example_platform"
    "fetched_defaults ?env = hardcoded_defaults" "disk ?env = None"
    "network ?env = (\<lambda>i. Response 401 ''Unauthorized'')"
    "stdin ?env = [Line ''foo.openai.azure.com'', Line ''secret'', Line [],
                               Line [], Line [], Line ''n'']"
    by (simp_all add: first_run_def)
  have g0: "gather ?env None [FetchDefaults]
      = Continue ?g [Line [], Line [], Line ''n'']
          [FetchDefaults, Ask ''Endpoint'', AskPassword ''API Key'' [], Ask ''Deployment name'']"
    unfolding gather_def using e
    by (simp add: opt_field_def truthy_opt_def ask_def parse_bare_host gather_key_def
        askPassword_def Let_def)
  have g: "gather ?env (getExistingAzureSettings (loadExistingConfig (JSON_parse ?env) (disk ?env)))
        [FetchDefaults]
      = Continue ?g [Line [], Line [], Line ''n'']
          [FetchDefaults, Ask ''Endpoint'', AskPassword ''API Key'' [], Ask ''Deployment name'']"
    unfolding l n by (rule g0)
  have st: "settled_of ?g = Some ?s" by (simp add: settled_of_def)
  have p0: "probe_call ?env 0 ?s = Inr \<lparr>ok = False, status = 401, body = ''Unauthorized''\<rparr>"
    unfolding probe_call_def using e by (simp add: probe_unauthorized)
  have nok: "\<not> ok \<lparr>ok = False, status = 401, body = ''Unauthorized''\<rparr>" by simp
  have a1: "ask (deployment_of ?s) [Line [], Line [], Line ''n'']
      = Some (''model-router'', [Line [], Line ''n''])"
    by (simp add: ask_def)
  have a2: "ask (apiVersion_of ?s) [Line [], Line ''n''] = Some (''2025-01-01-preview'', [Line ''n''])"
    by (simp add: ask_def)
  have p1: "probe_call ?env 1 (?s\<lparr>deployment_of := ''model-router'',
                                   apiVersion_of := ''2025-01-01-preview''\<rparr>)
      = Inr \<lparr>ok = False, status = 401, body = ''Unauthorized''\<rparr>"
    unfolding probe_call_def using e by (simp add: probe_unauthorized)
  have a3: "ask ''N'' [Line ''n''] = Some (''n'', [])" by (simp add: ask_def)
  have dc: "toLowerCase ''n'' \<noteq> ''y''" by (simp add: toLowerCase_def)
  from interactive_retry_decline [OF e(1) g st p0 nok a1 a2] p1 nok a3 dc
  have "main ?env =
      \<lparr>outcome = Exit 1,
       effects = [FetchDefaults, Ask ''Endpoint'', AskPassword ''API Key'' [],
                  Ask ''Deployment name'']
                 @ [TestConnection (baseUrl_of ?s) (apiKey_of ?s) (deployment_of ?s)
                      (apiVersion_of ?s),
                    Ask ''Deployment name'', Ask ''API Version'',
                    TestConnection (baseUrl_of ?s) (apiKey_of ?s) ''model-router''
                      ''2025-01-01-preview'',
                    Ask ''Save config anyway? (y/N)''],
       final_disk = disk ?env\<rparr>"
    by blast
  then show ?thesis by (simp add: e(5))
qed

text \<open>
  Claim C5, as stated, fails. (1) The unattended run without a configuration file exits
  with code 1 after a network request, the fetch of the defaults. (2) With a stored
  endpoint and no stored key the unattended run does not exit: it asks for the endpoint
  and the key, probes, continues after the failed probe and writes the file.
\<close>

theorem unattended_claim_fails:
  "outcome (main (first_run\<lparr>nonInteractive := True\<rparr>)) = Exit 1
   \<and> FetchDefaults \<in> set (effects (main (first_run\<lparr>nonInteractive := True\<rparr>)))
   \<and> outcome (main (first_run\<lparr>nonInteractive := True, disk := Some endpoint_only_document,
                                stdin := [Line [], Line ''secret'']\<rparr>)) = Exit 0
   \<and> effects (main (first_run\<lparr>nonInteractive := True, disk := Some endpoint_only_document,
                                stdin := [Line [], Line ''secret'']\<rparr>))
       = [FetchDefaults, Ask ''Endpoint'', AskPassword ''API Key'' [],
          TestConnection ''https://foo.openai.azure.com/openai'' ''secret'' ''model-router''
            ''2025-01-01-preview'',
          Fs MkdirConfigDir, Fs MkdirMcpDir, McpInstall, Fs WriteConfig, BinaryInstall]
   \<and> final_disk (main (first_run\<lparr>nonInteractive := True, disk := Some endpoint_only_document,
                                stdin := [Line [], Line ''secret'']\<rparr>))
       \<noteq> Some endpoint_only_document"
proof -
  let ?e0 = "first_run\<lparr>nonInteractive := True\<rparr>"
  have n: "getExistingAzureSettings JNull = None"
    by (simp add: getExistingAzureSettings_def optional_get_def truthy_opt_def)
  have m0: "main ?e0 = \<lparr>outcome = Exit 1, effects = [FetchDefaults], final_disk = None\<rparr>"
    by (simp add: main_def first_run_def loadExistingConfig_def n gather_def opt_field_def
        truthy_opt_def)
  let ?env = "first_run\<lparr>nonInteractive := True, disk := Some endpoint_only_document,
                                stdin := [Line [], Line ''secret'']\<rparr>"
  let ?s = "\<lparr>baseUrl_of = ''https://foo.openai.azure.com/openai'', apiKey_of = ''secret'',
            deployment_of = ''model-router'', apiVersion_of = ''2025-01-01-preview''\<rparr>"
  let ?g = "\<lparr>g_baseUrl = JStr ''https://foo.openai.azure.com/openai'',
            g_deployment = ''model-router'',
            g_apiVersion = JStr ''2025-01-01-preview'', g_apiKey = JStr ''secret''\<rparr>"
  have e: "nonInteractive ?env" "isTTY ?env" "URL_platform ?env = example_platform"
    "fetched_defaults ?env = hardcoded_defaults" "disk ?env = Some endpoint_only_document"
    "network ?env = (\<lambda>i. Response 401 ''Unauthorized'')"
    "stdin ?env = [Line [], Line ''secret'']" "JSON_parse ?env = Some"
    "\<forall>f. \<not> fs_fails ?env f"
    by (simp_all add: first_run_def)
  have l: "loadExistingConfig (JSON_parse ?env) (disk ?env) = endpoint_only_document"
    using e by (simp add: loadExistingConfig_def)
  have s: "getExistingAzureSettings endpoint_only_document =
     Some \<lparr>s_baseUrl = JStr ''https://foo.openai.azure.com/openai'',
           s_apiKey = JStr [], s_deployment = ''model-router'',
           s_apiVersion = JStr ''2025-01-01-preview''\<rparr>"
    by (simp add: endpoint_only_document_def stored_with_settings js_or_def)
  have g: "gather ?env (getExistingAzureSettings endpoint_only_document) [FetchDefaults]
      = Continue ?g [] [FetchDefaults, Ask ''Endpoint'', AskPassword ''API Key'' []]"
    unfolding s gather_def using e
    by (simp add: opt_field_def truthy_opt_def js_or_def gather_key_def askPassword_def Let_def)
  have st: "settled_of ?g = Some ?s" by (simp add: settled_of_def)
  have p: "probe ?env ?s [] [FetchDefaults, Ask ''Endpoint'', AskPassword ''API Key'' []]
      = Continue ?s [] [FetchDefaults, Ask ''Endpoint'', AskPassword ''API Key'' [],
          TestConnection ''https://foo.openai.azure.com/openai'' ''secret'' ''model-router''
            ''2025-01-01-preview'']"
    unfolding probe_def probe_call_def using e
    by (simp add: probe_unauthorized probe_effect_def)
  have pd: "mergeable endpoint_only_document"
    by (simp add: mergeable_def endpoint_only_document_def stored_with_def js_or_def)
  then obtain cfg where m: "merge_step endpoint_only_document (baseUrl_of ?s) (apiKey_of ?s)
      (deployment_of ?s) (apiVersion_of ?s) = Inr cfg"
    using merge_step_Inr_iff by blast
  have c: "commit ?env endpoint_only_document ?s tr
      = \<lparr>outcome = Exit 0,
         effects = (tr @ [Fs MkdirConfigDir, Fs MkdirMcpDir, McpInstall, Fs WriteConfig])
                    @ [BinaryInstall],
         final_disk = Some (JSON_stringify ?env
             (if npm_ok ?env then mcp_step cfg (mcpPath ?env) else cfg))\<rparr>" for tr
    using e(9) m unfolding commit_def by (simp add: Let_def)
  have mm: "main ?env = commit ?env endpoint_only_document ?s
      [FetchDefaults, Ask ''Endpoint'', AskPassword ''API Key'' [],
          TestConnection ''https://foo.openai.azure.com/openai'' ''secret'' ''model-router''
            ''2025-01-01-preview'']"
    unfolding main_def l Let_def g by (simp add: st p)
  have pdoc: "plain_document endpoint_only_document"
    by (simp add: plain_document_def endpoint_only_document_def stored_with_def js_or_def)
  from merge_step_plain [OF m pdoc] obtain p where
    pc: "plain_object cfg" and pr: "get_prop cfg ''provider'' = Some p"
    and pp: "plain_object p" and az: "get_prop p ''azure''
      = Some (azure_entry (baseUrl_of ?s) (apiKey_of ?s) (deployment_of ?s) (apiVersion_of ?s))"
    by blast
  have fd: "final_disk (main ?env) = Some (json_image (mcp_step cfg (mcpPath ?env)))"
    unfolding mm c by (simp add: first_run_def)
  have rb: "getExistingAzureSettings (json_image (mcp_step cfg (mcpPath ?env)))
      = Some \<lparr>s_baseUrl = JStr (baseUrl_of ?s), s_apiKey = JStr (apiKey_of ?s),
               s_deployment = deployment_of ?s, s_apiVersion = JStr (apiVersion_of ?s)\<rparr>"
    using pc pr mcp_step_provider [of cfg "mcpPath ?env"]
    by (intro extract_after_load [OF _ _ pp az]) simp_all
  have ne: "final_disk (main ?env) \<noteq> Some endpoint_only_document"
  proof
    assume "final_disk (main ?env) = Some endpoint_only_document"
    with fd have "json_image (mcp_step cfg (mcpPath ?env)) = endpoint_only_document" by simp
    with rb s show False by simp
  qed
  from m0 mm c ne show ?thesis by simp
qed

section \<open>The endpoint parser on inputs that parse\<close>

text \<open>
  The \<^verbatim>\<open>try\<close> branch of \<^verbatim>\<open>parseAzureEndpoint\<close>, for a URL with a segment path whose
  segments are what the path state leaves unchanged (no separator, no code unit to
  escape, no dot segment, no drive letter in first place of a \<^verbatim>\<open>file\<close> URL): splitting
  the pathname, cutting after the first \<^verbatim>\<open>openai\<close> and assigning the joined text gives
  back the kept segments.
\<close>


lemma str_split_no_sep: "c \<notin> set s \<Longrightarrow> str_split c s = [s]"
  by (induction s) auto

lemma str_split_append_sep:
  "c \<notin> set s \<Longrightarrow> str_split c (s @ c # rest) = s # str_split c rest"
  by (induction s) auto

lemma str_split_segments:
  assumes "\<forall>s \<in> set (x # xs). CHR ''/'' \<notin> set s"
  shows "str_split CHR ''/'' (x @ concat (map (\<lambda>s. CHR ''/'' # s) xs)) = x # xs"
  using assms
proof (induction xs arbitrary: x)
  case Nil
  then show ?case by (simp add: str_split_no_sep)
next
  case (Cons y ys)
  then show ?case by (simp add: str_split_append_sep)
qed

lemma str_split_pathname:
  assumes "\<forall>s \<in> set segs. CHR ''/'' \<notin> set s"
  shows "str_split CHR ''/'' (concat (map (\<lambda>s. CHR ''/'' # s) segs)) = [] # segs"
proof (cases segs)
  case Nil
  then show ?thesis by simp
next
  case (Cons x xs)
  with assms have "str_split CHR ''/'' (x @ concat (map (\<lambda>s. CHR ''/'' # s) xs)) = x # xs"
    by (intro str_split_segments) simp
  with Cons show ?thesis by simp
qed

lemma indexOf_absent: "x \<notin> set xs \<Longrightarrow> indexOf xs x = -1"
  by (induction xs) (auto simp: Let_def)

lemma indexOf_present:
  "x \<in> set xs \<Longrightarrow> indexOf xs x = int (length (takeWhile (\<lambda>y. y \<noteq> x) xs))"
  by (induction xs) (auto simp: Let_def indexOf_absent)

lemma take_takeWhile_Suc:
  "x \<in> set xs \<Longrightarrow>
     take (Suc (length (takeWhile (\<lambda>y. y \<noteq> x) xs))) xs = takeWhile (\<lambda>y. y \<noteq> x) xs @ [x]"
  by (induction xs) auto

lemma str_join_Cons_Nil: "xs \<noteq> [] \<Longrightarrow> str_join sep ([] # xs) = sep @ str_join sep xs"
  by (cases xs) simp_all

lemma percent_encode_clean: "\<not> path_encode_set c \<Longrightarrow> percent_encode c = [c]"
  by (simp add: percent_encode_def Let_def)

lemma path_state_clean:
  assumes "\<forall>c \<in> set cs. c \<noteq> CHR ''/'' \<and> (special_scheme sch \<longrightarrow> c \<noteq> CHR 0x5C)
             \<and> \<not> path_encode_set c"
  shows "path_state sch p buf (cs @ rest) = path_state sch p (buf @ cs) rest"
  using assms
  by (induction cs arbitrary: buf) (auto simp: percent_encode_clean)

lemma clean_segment_chars:
  "clean_segment sch seg \<Longrightarrow>
     \<forall>c \<in> set seg. c \<noteq> CHR ''/'' \<and> (special_scheme sch \<longrightarrow> c \<noteq> CHR 0x5C)
        \<and> \<not> path_encode_set c"
  by (auto simp: clean_segment_def)

lemma windows_drive_letter_colon:
  "windows_drive_letter x \<Longrightarrow> x ! 1 = CHR '':'' \<Longrightarrow> [hd x, CHR '':''] = x"
  by (auto simp: windows_drive_letter_def split: list.splits)

lemma end_segment_clean:
  assumes "clean_segment sch x"
    and "sch = ''file'' \<and> p = [] \<and> windows_drive_letter x \<longrightarrow> x ! 1 = CHR '':''"
  shows "end_segment sch p x slash = p @ [x]"
  using assms
  by (auto simp: end_segment_def clean_segment_def windows_drive_letter_colon)

lemma path_state_segments:
  assumes "\<forall>seg \<in> set (x # xs). clean_segment sch seg"
    and "sch = ''file'' \<and> p = [] \<and> windows_drive_letter x \<longrightarrow> x ! 1 = CHR '':''"
  shows "path_state sch p [] (str_join ''/'' (x # xs)) = p @ x # xs"
  using assms
proof (induction xs arbitrary: p x)
  case Nil
  have "path_state sch p [] (x @ []) = path_state sch p ([] @ x) []"
    using Nil(1) by (intro path_state_clean clean_segment_chars) simp
  then show ?case
    using Nil by (simp add: end_segment_clean)
next
  case (Cons y ys)
  have "path_state sch p [] (x @ CHR ''/'' # str_join ''/'' (y # ys))
      = path_state sch p ([] @ x) (CHR ''/'' # str_join ''/'' (y # ys))"
    using Cons(2) by (intro path_state_clean clean_segment_chars) simp
  also have "\<dots> = path_state sch (p @ [x]) [] (str_join ''/'' (y # ys))"
    using Cons(2,3) by (simp add: end_segment_clean)
  also have "\<dots> = (p @ [x]) @ y # ys"
    using Cons(2) by (intro Cons.IH) simp_all
  finally show ?case by simp
qed

lemma tab_or_newline_encoded: "tab_or_newline c \<Longrightarrow> path_encode_set c"
  unfolding tab_or_newline_def path_encode_set_def by fastforce

lemma set_str_join: "set (str_join sep xs) \<subseteq> set sep \<union> \<Union> (set ` set xs)"
  by (induction sep xs rule: str_join.induct) auto

lemma clean_no_tabs:
  assumes "\<forall>seg \<in> set segs. clean_segment sch seg"
  shows "filter (\<lambda>c. \<not> tab_or_newline c) (CHR ''/'' # str_join ''/'' segs)
     = CHR ''/'' # str_join ''/'' segs"
proof -
  have "\<not> tab_or_newline c" if "c \<in> set (str_join ''/'' segs)" for c
  proof -
    from that set_str_join [of "''/''" segs]
    consider "c = CHR ''/''" | seg where "seg \<in> set segs" "c \<in> set seg" by auto
    then show ?thesis
    proof cases
      case 1
      then show ?thesis by (simp add: tab_or_newline_def)
    next
      case 2
      with assms have "\<not> path_encode_set c" by (auto simp: clean_segment_def)
      then show ?thesis using tab_or_newline_encoded by blast
    qed
  qed
  then show ?thesis by (simp add: filter_id_conv tab_or_newline_def)
qed

lemma clean_openai: "clean_segment sch ''openai''"
  by (simp add: clean_segment_def path_encode_set_def single_dot_def double_dot_def)

lemma kept_segments_clean:
  assumes "\<forall>seg \<in> set segs. clean_segment sch seg"
  shows "\<forall>seg \<in> set (kept_segments segs). clean_segment sch seg"
  using assms clean_openai
  by (auto simp: kept_segments_def dest: set_takeWhileD)

lemma kept_segments_nonempty: "kept_segments segs \<noteq> []"
  by (simp add: kept_segments_def)

lemma kept_segments_last: "last (kept_segments segs) = ''openai''"
  by (simp add: kept_segments_def)

lemma count_list_takeWhile: "count_list (takeWhile (\<lambda>s. s \<noteq> x) xs) x = 0"
  by (auto simp: count_list_0_iff dest: set_takeWhileD)

lemma kept_segments_count: "count_list (kept_segments segs) ''openai'' = 1"
  by (simp add: kept_segments_def count_list_takeWhile)

lemma kept_segments_drive:
  assumes "parsed_path sch segs"
  shows "sch = ''file'' \<and> windows_drive_letter (hd (kept_segments segs))
           \<longrightarrow> hd (kept_segments segs) ! 1 = CHR '':''"
proof (cases "''openai'' \<in> set segs \<and> takeWhile (\<lambda>s. s \<noteq> ''openai'') segs \<noteq> []")
  case True
  then have "hd (kept_segments segs) = hd segs" "segs \<noteq> []"
    by (cases segs; auto simp: kept_segments_def)+
  with assms show ?thesis by (simp add: parsed_path_def)
next
  case False
  then have "hd (kept_segments segs) = ''openai''"
    by (auto simp: kept_segments_def)
  then show ?thesis by (simp add: windows_drive_letter_def)
qed

lemma path_start_slash:
  "path_start_state u (CHR ''/'' # v) = path_state (url_scheme u) [] [] v"
  by (simp add: path_start_state_def)

lemma set_pathname_join:
  assumes "url_path u = Segments segs"
    and "\<forall>seg \<in> set (x # xs). clean_segment (url_scheme u) seg"
    and "url_scheme u = ''file'' \<and> windows_drive_letter x \<longrightarrow> x ! 1 = CHR '':''"
  shows "set_pathname u (CHR ''/'' # str_join ''/'' (x # xs)) = u\<lparr>url_path := Segments (x # xs)\<rparr>"
proof -
  have f: "filter (\<lambda>c. \<not> tab_or_newline c) (CHR ''/'' # str_join ''/'' (x # xs))
      = CHR ''/'' # str_join ''/'' (x # xs)"
    using assms(2) by (rule clean_no_tabs)
  have "path_state (url_scheme u) [] [] (str_join ''/'' (x # xs)) = [] @ x # xs"
    using assms(2,3) by (intro path_state_segments) simp_all
  then show ?thesis
    unfolding set_pathname_def f using assms(1) by (simp add: path_start_slash)
qed

lemma indexOf_pathParts:
  "indexOf ([] # segs) ''openai''
     = (if ''openai'' \<in> set segs
        then int (length (takeWhile (\<lambda>s. s \<noteq> ''openai'') segs)) + 1 else -1)"
  by (simp add: Let_def indexOf_absent indexOf_present)

lemma set_pathname_kept:
  assumes p: "url_path u = Segments segs" and w: "parsed_path (url_scheme u) segs"
  shows "(let pathParts = str_split CHR ''/'' (pathname u);
              openaiIndex = indexOf pathParts ''openai''
          in if openaiIndex \<noteq> -1
             then set_pathname u (str_join ''/'' (slice0 pathParts (openaiIndex + 1)))
             else set_pathname u ''/openai'')
         = u\<lparr>url_path := Segments (kept_segments segs)\<rparr>"
proof -
  from w have cl: "\<forall>seg \<in> set segs. clean_segment (url_scheme u) seg"
    by (simp add: parsed_path_def)
  then have ns: "\<forall>s \<in> set segs. CHR ''/'' \<notin> set s"
    by (simp add: clean_segment_def)
  have pp: "str_split CHR ''/'' (pathname u) = [] # segs"
    using p ns by (simp add: pathname_def str_split_pathname)
  obtain x xs where k: "kept_segments segs = x # xs"
    using kept_segments_nonempty by (cases "kept_segments segs") auto
  have sk: "set_pathname u (CHR ''/'' # str_join ''/'' (kept_segments segs))
      = u\<lparr>url_path := Segments (kept_segments segs)\<rparr>"
    unfolding k
    using p kept_segments_clean [OF cl] kept_segments_drive [OF w]
    by (intro set_pathname_join) (simp_all add: k)
  show ?thesis
  proof (cases "''openai'' \<in> set segs")
    case True
    let ?n = "length (takeWhile (\<lambda>s. s \<noteq> ''openai'') segs)"
    have "slice0 ([] # segs) (int ?n + 1 + 1) = [] # kept_segments segs"
      using True by (simp add: slice0_def kept_segments_def take_takeWhile_Suc nat_add_distrib)
    then have "str_join ''/'' (slice0 ([] # segs) (int ?n + 1 + 1))
        = CHR ''/'' # str_join ''/'' (kept_segments segs)"
      by (simp add: str_join_Cons_Nil kept_segments_nonempty)
    with True sk show ?thesis
      unfolding pp Let_def indexOf_pathParts by simp
  next
    case False
    then have "kept_segments segs = [''openai'']" by (simp add: kept_segments_def)
    with sk have "set_pathname u ''/openai'' = u\<lparr>url_path := Segments (kept_segments segs)\<rparr>"
      by simp
    with False show ?thesis
      unfolding pp Let_def indexOf_pathParts by simp
  qed
qed

lemma parseAzureEndpoint_try:
  assumes "URL_new platform input = Some u"
    and "url_path u = Segments segs" and "parsed_path (url_scheme u) segs"
  shows "parseAzureEndpoint platform input dflt =
     \<lparr>baseUrl = strip_trailing_slash
                  (toString (u\<lparr>url_path := Segments (kept_segments segs),
                               url_query := None, url_params := []\<rparr>)),
      deployment = (case deploymentMatch (pathname u) of
                      Some d \<Rightarrow> d | None \<Rightarrow> dflt_deployment dflt),
      apiVersion = (case searchParams_get u ''api-version'' of
                      Some v \<Rightarrow> if v \<noteq> [] then v else dflt_apiVersion dflt
                    | None \<Rightarrow> dflt_apiVersion dflt)\<rparr>"
  using set_pathname_kept [OF assms(2,3)] assms(1)
  by (simp add: parseAzureEndpoint_def Let_def clear_search_def)

lemma toString_kept:
  assumes "url_fragment u = None"
  shows "\<exists>front. toString (u\<lparr>url_path := Segments (kept_segments segs),
                               url_query := None, url_params := []\<rparr>)
            = front @ ''/openai''"
proof -
  obtain ys where "kept_segments segs = ys @ [''openai'']"
    by (cases "''openai'' \<in> set segs") (simp_all add: kept_segments_def)
  then show ?thesis
    using assms by (simp add: toString_def pathname_def split: option.splits)
qed

lemma strip_trailing_slash_openai: "strip_trailing_slash (front @ ''/openai'') = front @ ''/openai''"
  by (simp add: strip_trailing_slash_def)

lemma first_sep_unique:
  "c \<notin> set xs \<Longrightarrow> c \<notin> set p \<Longrightarrow> xs @ c # r1 = p @ c # r2 \<Longrightarrow> xs = p"
proof (induction xs arbitrary: p)
  case Nil
  then show ?case by (cases p) auto
next
  case (Cons x xs)
  then show ?case by (cases p) auto
qed

lemma deploymentMatch_skip: "c \<noteq> CHR ''/'' \<Longrightarrow> deploymentMatch (c # cs) = deploymentMatch cs"
  by (simp add: startsWith_def)

lemma deploymentMatch_skip_chars:
  "CHR ''/'' \<notin> set p \<Longrightarrow> deploymentMatch (p @ rest) = deploymentMatch rest"
proof (induction p)
  case Nil
  show ?case by simp
next
  case (Cons a p)
  then have "a \<noteq> CHR ''/''" by auto
  then have "deploymentMatch (a # (p @ rest)) = deploymentMatch (p @ rest)"
    by (rule deploymentMatch_skip)
  with Cons show ?case by (simp del: deploymentMatch.simps)
qed

lemma not_deployments_segment:
  assumes "CHR ''/'' \<notin> set p" and "p \<noteq> ''deployments''"
  shows "\<not> startsWith (CHR ''/'' # p @ CHR ''/'' # rest) ''/deployments/''"
proof
  assume "startsWith (CHR ''/'' # p @ CHR ''/'' # rest) ''/deployments/''"
  then have "prefix (CHR ''/'' # ''deployments'' @ [CHR ''/'']) (CHR ''/'' # p @ CHR ''/'' # rest)"
    by (simp only: startsWith_prefix) simp
  then have "prefix (''deployments'' @ [CHR ''/'']) (p @ CHR ''/'' # rest)"
    by (simp only: Cons_prefix_Cons)
  then obtain r1 where "p @ CHR ''/'' # rest = (''deployments'' @ [CHR ''/'']) @ r1"
    by (rule prefixE)
  then have e: "''deployments'' @ CHR ''/'' # r1 = p @ CHR ''/'' # rest"
    by (simp only: append_assoc append_Cons append_Nil)
  have d: "CHR ''/'' \<notin> set ''deployments''" by simp
  have "''deployments'' = p"
    using d assms(1) e by (rule first_sep_unique)
  with assms(2) show False by simp
qed

lemma takeWhile_segment:
  "CHR ''/'' \<notin> set name \<Longrightarrow>
     takeWhile (\<lambda>x. x \<noteq> CHR ''/'') (name @ concat (map (\<lambda>s. CHR ''/'' # s) post)) = name"
  by (cases post) (auto simp: takeWhile_append2 takeWhile_tail)

lemma deploymentMatch_segments:
  assumes "\<forall>s \<in> set pre. CHR ''/'' \<notin> set s" and "CHR ''/'' \<notin> set name"
    and "''deployments'' \<notin> set pre" and "name \<noteq> []"
  shows "deploymentMatch
           (concat (map (\<lambda>s. CHR ''/'' # s) (pre @ ''deployments'' # name # post)))
         = Some name"
  using assms(1,3)
proof (induction pre)
  case Nil
  have "takeWhile (\<lambda>x. x \<noteq> CHR ''/'') (name @ concat (map (\<lambda>s. CHR ''/'' # s) post)) = name"
    using assms(2) by (rule takeWhile_segment)
  with assms(4) show ?case
    by (simp add: startsWith_def)
next
  case (Cons p ps)
  let ?rest = "concat (map (\<lambda>s. CHR ''/'' # s) (ps @ ''deployments'' # name # post))"
  obtain r where r: "?rest = CHR ''/'' # r"
    by (cases ps) simp_all
  have "\<not> startsWith (CHR ''/'' # p @ CHR ''/'' # r) ''/deployments/''"
    using Cons.prems by (intro not_deployments_segment) auto
  then have "deploymentMatch (CHR ''/'' # p @ ?rest) = deploymentMatch (p @ ?rest)"
    unfolding r by simp
  also have "\<dots> = deploymentMatch ?rest"
    using Cons.prems by (intro deploymentMatch_skip_chars) simp
  also have "\<dots> = Some name"
    using Cons.prems by (intro Cons.IH) simp_all
  finally show ?case by simp
qed

lemma kept_segments_deployments:
  "''deployments'' \<in> set (kept_segments segs) \<longleftrightarrow>
     ''openai'' \<in> set segs \<and> ''deployments'' \<in> set (takeWhile (\<lambda>s. s \<noteq> ''openai'') segs)"
  by (simp add: kept_segments_def)

text \<open>
  Claim C1, amended. Let the input parse to a URL with a segment path, let the pattern
  \<^verbatim>\<open>/deployments/([^/]+)\<close> match its pathname with capture \<open>d\<close>, and let the query hold a
  non-empty \<^verbatim>\<open>api-version\<close> value \<open>v\<close>. Then the result has deployment \<open>d\<close> and API
  version \<open>v\<close>; \<open>d\<close> is the segment after the first \<^verbatim>\<open>deployments\<close> segment when that
  one is not empty. The base URL is the serialised URL with the path cut after its first
  \<^verbatim>\<open>openai\<close> segment (the path \<^verbatim>\<open>/openai\<close> when there is none), without query, the fragment
  kept, less one trailing slash; without a fragment it ends in \<^verbatim>\<open>/openai\<close>. The kept path
  holds a \<^verbatim>\<open>deployments\<close> segment exactly when one stands before the first \<^verbatim>\<open>openai\<close>.
\<close>

theorem parseAzureEndpoint_portal_url:
  assumes parsed: "URL_new platform input = Some u"
    and path: "url_path u = Segments segs" "parsed_path (url_scheme u) segs"
    and dep: "deploymentMatch (pathname u) = Some d"
    and ver: "searchParams_get u ''api-version'' = Some v" "v \<noteq> []"
  shows "(let r = parseAzureEndpoint platform input dflt;
              base = u\<lparr>url_path := Segments (kept_segments segs),
                        url_query := None, url_params := []\<rparr>
          in deployment r = d \<and> apiVersion r = v
           \<and> (\<forall>pre name post.
                  segs = pre @ ''deployments'' # name # post
                  \<and> ''deployments'' \<notin> set pre \<and> name \<noteq> [] \<longrightarrow> d = name)
           \<and> baseUrl r = strip_trailing_slash (toString base)
           \<and> (url_fragment u = None \<longrightarrow>
                  baseUrl r = toString base \<and> endsWith (baseUrl r) ''/openai'')
           \<and> last (kept_segments segs) = ''openai''
           \<and> (''openai'' \<notin> set segs \<longrightarrow> pathname base = ''/openai'')
           \<and> (''deployments'' \<in> set (kept_segments segs) \<longleftrightarrow>
                  ''openai'' \<in> set segs
                  \<and> ''deployments'' \<in> set (takeWhile (\<lambda>s. s \<noteq> ''openai'') segs)))"
proof -
  let ?r = "parseAzureEndpoint platform input dflt"
  let ?base = "u\<lparr>url_path := Segments (kept_segments segs),
                        url_query := None, url_params := []\<rparr>"
  note t = parseAzureEndpoint_try [OF parsed path, of dflt]
  have 1: "deployment ?r = d" "apiVersion ?r = v"
    "baseUrl ?r = strip_trailing_slash (toString ?base)"
    unfolding t using dep ver by simp_all
  have 2: "d = name"
    if "segs = pre @ ''deployments'' # name # post \<and> ''deployments'' \<notin> set pre \<and> name \<noteq> []"
    for pre name post
  proof -
    from path(2) have ns: "\<forall>s \<in> set segs. CHR ''/'' \<notin> set s"
      by (simp add: parsed_path_def clean_segment_def)
    have "deploymentMatch (concat (map (\<lambda>s. CHR ''/'' # s)
            (pre @ ''deployments'' # name # post))) = Some name"
      using that ns by (intro deploymentMatch_segments) auto
    with that dep path(1) show ?thesis by (simp add: pathname_def)
  qed
  have 3: "baseUrl ?r = toString ?base \<and> endsWith (baseUrl ?r) ''/openai''"
    if "url_fragment u = None"
  proof -
    from toString_kept [OF that, of segs] obtain front where
      "toString ?base = front @ ''/openai''" by blast
    then show ?thesis
      unfolding 1(3) by (simp add: strip_trailing_slash_openai endsWith_append_self)
  qed
  have 4: "pathname ?base = ''/openai''" if "''openai'' \<notin> set segs"
    using that by (simp add: pathname_def kept_segments_def)
  from 1 2 3 4 kept_segments_last [of segs] kept_segments_deployments [of segs]
  show ?thesis
    unfolding Let_def by blast
qed

lemma example_has_scheme:
  "has_scheme (url_preprocess portal_input)"
  "has_scheme (url_preprocess empty_version_input)"
  "has_scheme (url_preprocess late_openai_input)"
  "has_scheme (url_preprocess fragment_input)"
  by (simp_all add: portal_input_def empty_version_input_def late_openai_input_def
      fragment_input_def has_scheme_def url_preprocess_def c0_or_space_def
      tab_or_newline_def ascii_alpha_def scheme_char_def)

lemma example_platform_table:
  "example_platform portal_input = Some portal_url"
  "example_platform empty_version_input = Some empty_version_url"
  "example_platform late_openai_input = Some late_openai_url"
  "example_platform fragment_input = Some fragment_url"
  by (simp_all add: example_platform_def portal_input_def probe_input_def
      empty_version_input_def late_openai_input_def fragment_input_def)

lemma example_URL_new:
  "URL_new example_platform portal_input = Some portal_url"
  "URL_new example_platform empty_version_input = Some empty_version_url"
  "URL_new example_platform late_openai_input = Some late_openai_url"
  "URL_new example_platform fragment_input = Some fragment_url"
  by (simp_all add: URL_new_def example_has_scheme example_platform_table)

lemma clean_examples:
  "clean_segment ''https'' ''deployments''"
  "clean_segment ''https'' ''gpt-5''"
  "clean_segment ''https'' ''chat''"
  "clean_segment ''https'' ''completions''"
  by (simp_all add: clean_segment_def path_encode_set_def single_dot_def double_dot_def)

lemma parsed_examples:
  "parsed_path ''https'' [''openai'', ''deployments'', ''gpt-5'', ''chat'', ''completions'']"
  "parsed_path ''https'' [''openai'', ''deployments'', ''gpt-5'']"
  "parsed_path ''https'' [''deployments'', ''gpt-5'', ''openai'']"
  "parsed_path ''https'' [''openai'']"
  by (simp_all add: parsed_path_def clean_examples clean_openai)

text \<open>
  The portal URL
  \<^verbatim>\<open>https://foo.openai.azure.com/openai/deployments/gpt-5/chat/completions?api-version=2024-10-01\<close>
  gives the base URL \<^verbatim>\<open>https://foo.openai.azure.com/openai\<close>, the deployment \<^verbatim>\<open>gpt-5\<close> and
  the API version \<^verbatim>\<open>2024-10-01\<close>.
\<close>

theorem parseAzureEndpoint_portal_url_witness:
  "URL_new example_platform portal_input = Some portal_url
   \<and> parseAzureEndpoint example_platform portal_input hardcoded_defaults
       = \<lparr>baseUrl = ''https://foo.openai.azure.com/openai'', deployment = ''gpt-5'',
          apiVersion = ''2024-10-01''\<rparr>"
proof -
  let ?segs = "[''openai'', ''deployments'', ''gpt-5'', ''chat'', ''completions'']"
  let ?r = "parseAzureEndpoint example_platform portal_input hardcoded_defaults"
  have p: "url_path portal_url = Segments ?segs"
    and w: "parsed_path (url_scheme portal_url) ?segs"
    by (simp_all add: portal_url_def parsed_examples)
  have d: "deploymentMatch (pathname portal_url) = Some ''gpt-5''"
    by (simp add: pathname_def portal_url_def startsWith_def)
  have v: "searchParams_get portal_url ''api-version'' = Some ''2024-10-01''"
    "''2024-10-01'' \<noteq> []"
    by (simp_all add: searchParams_get_def portal_url_def)
  have f: "url_fragment portal_url = None" by (simp add: portal_url_def)
  from parseAzureEndpoint_portal_url [OF example_URL_new(1) p w d v, of hardcoded_defaults,
      unfolded Let_def] f
  have "deployment ?r = ''gpt-5''" "apiVersion ?r = ''2024-10-01''"
    "baseUrl ?r = toString (portal_url\<lparr>url_path := Segments (kept_segments ?segs),
                        url_query := None, url_params := []\<rparr>)"
    by blast+
  then have "deployment ?r = ''gpt-5''" "apiVersion ?r = ''2024-10-01''"
    "baseUrl ?r = ''https://foo.openai.azure.com/openai''"
    by (simp_all add: kept_segments_def toString_def pathname_def portal_url_def)
  then have "?r = \<lparr>baseUrl = ''https://foo.openai.azure.com/openai'', deployment = ''gpt-5'',
          apiVersion = ''2024-10-01''\<rparr>"
    by (cases ?r) simp
  with example_URL_new(1) show ?thesis by blast
qed

text \<open>
  Claim C1, as stated, fails. (1) For \<^verbatim>\<open>.../openai/deployments/gpt-5?api-version=\<close> the
  query names an API version, the empty one, and the result carries the default
  instead. (2) For \<^verbatim>\<open>https://foo.openai.azure.com/deployments/gpt-5/openai\<close> the deployment
  is found, and the base URL still holds the deployment segment.
\<close>

theorem parseAzureEndpoint_portal_url_fails:
  "URL_new example_platform empty_version_input = Some empty_version_url
   \<and> searchParams_get empty_version_url ''api-version'' = Some []
   \<and> apiVersion (parseAzureEndpoint example_platform empty_version_input hardcoded_defaults)
       = ''2025-01-01-preview''
   \<and> URL_new example_platform late_openai_input = Some late_openai_url
   \<and> deploymentMatch (pathname late_openai_url) = Some ''gpt-5''
   \<and> baseUrl (parseAzureEndpoint example_platform late_openai_input hardcoded_defaults)
       = ''https://foo.openai.azure.com/deployments/gpt-5/openai''"
proof -
  have p1: "url_path empty_version_url = Segments [''openai'', ''deployments'', ''gpt-5'']"
    and w1: "parsed_path (url_scheme empty_version_url) [''openai'', ''deployments'', ''gpt-5'']"
    by (simp_all add: empty_version_url_def parsed_examples)
  have g: "searchParams_get empty_version_url ''api-version'' = Some []"
    by (simp add: searchParams_get_def empty_version_url_def)
  have 1: "apiVersion (parseAzureEndpoint example_platform empty_version_input hardcoded_defaults)
       = ''2025-01-01-preview''"
    unfolding parseAzureEndpoint_try [OF example_URL_new(2) p1 w1]
    by (simp add: g hardcoded_defaults_def)
  have p2: "url_path late_openai_url = Segments [''deployments'', ''gpt-5'', ''openai'']"
    and w2: "parsed_path (url_scheme late_openai_url) [''deployments'', ''gpt-5'', ''openai'']"
    by (simp_all add: late_openai_url_def parsed_examples)
  have d: "deploymentMatch (pathname late_openai_url) = Some ''gpt-5''"
    by (simp add: pathname_def late_openai_url_def startsWith_def)
  have 2: "baseUrl (parseAzureEndpoint example_platform late_openai_input hardcoded_defaults)
       = ''https://foo.openai.azure.com/deployments/gpt-5/openai''"
    unfolding parseAzureEndpoint_try [OF example_URL_new(3) p2 w2]
    by (simp add: kept_segments_def toString_def pathname_def late_openai_url_def
        strip_trailing_slash_def)
  from example_URL_new(2,3) g 1 d 2 show ?thesis by blast
qed

lemma endsWith_openai_no_slash: "endsWith s ''/openai'' \<Longrightarrow> \<not> endsWith s ''/''"
proof -
  assume "endsWith s ''/openai''"
  then obtain front where "s = front @ ''/openai''"
    by (auto simp only: endsWith_suffix suffix_def)
  then show ?thesis by (simp add: endsWith_def)
qed

text \<open>
  Claim C2, amended. When the input fails URL parsing, or parses to a URL with a segment
  path and no fragment, the base URL ends in \<^verbatim>\<open>/openai\<close> and not in a slash. In the second
  case it is the serialised URL with the kept path and no query, and the kept path holds
  \<^verbatim>\<open>openai\<close> exactly once, as its last segment.
\<close>

theorem parseAzureEndpoint_baseUrl_shape:
  "(URL_new platform input = None \<longrightarrow>
      endsWith (baseUrl (parseAzureEndpoint platform input dflt)) ''/openai''
      \<and> \<not> endsWith (baseUrl (parseAzureEndpoint platform input dflt)) ''/'')
   \<and> (\<forall>u segs.
        URL_new platform input = Some u \<and> url_path u = Segments segs
        \<and> parsed_path (url_scheme u) segs \<and> url_fragment u = None \<longrightarrow>
        baseUrl (parseAzureEndpoint platform input dflt)
          = toString (u\<lparr>url_path := Segments (kept_segments segs),
                        url_query := None, url_params := []\<rparr>)
        \<and> count_list (kept_segments segs) ''openai'' = 1
        \<and> last (kept_segments segs) = ''openai''
        \<and> endsWith (baseUrl (parseAzureEndpoint platform input dflt)) ''/openai''
        \<and> \<not> endsWith (baseUrl (parseAzureEndpoint platform input dflt)) ''/'')"
proof -
  let ?b = "baseUrl (parseAzureEndpoint platform input dflt)"
  have 1: "endsWith ?b ''/openai'' \<and> \<not> endsWith ?b ''/''"
    if "URL_new platform input = None"
    using catch_baseUrl_envelope [OF that, of dflt] endsWith_openai_no_slash by blast
  have 2: "?b = toString (u\<lparr>url_path := Segments (kept_segments segs),
                        url_query := None, url_params := []\<rparr>)
        \<and> count_list (kept_segments segs) ''openai'' = 1
        \<and> last (kept_segments segs) = ''openai''
        \<and> endsWith ?b ''/openai'' \<and> \<not> endsWith ?b ''/''"
    if h: "URL_new platform input = Some u \<and> url_path u = Segments segs
        \<and> parsed_path (url_scheme u) segs \<and> url_fragment u = None"
    for u segs
  proof -
    from h have a: "URL_new platform input = Some u" "url_path u = Segments segs"
      "parsed_path (url_scheme u) segs" "url_fragment u = None" by simp_all
    from toString_kept [OF a(4), of segs] obtain front where
      f: "toString (u\<lparr>url_path := Segments (kept_segments segs),
                        url_query := None, url_params := []\<rparr>) = front @ ''/openai''"
      by blast
    have b: "?b = front @ ''/openai''"
      unfolding parseAzureEndpoint_try [OF a(1,2,3)]
      by (simp add: f strip_trailing_slash_openai)
    then have e: "endsWith ?b ''/openai''" by (simp add: endsWith_append_self)
    from b f have "?b = toString (u\<lparr>url_path := Segments (kept_segments segs),
                        url_query := None, url_params := []\<rparr>)" by simp
    with e endsWith_openai_no_slash [OF e] kept_segments_count [of segs]
      kept_segments_last [of segs]
    show ?thesis by blast
  qed
  from 1 2 show ?thesis by blast
qed

text \<open>
  Both cases at an input: \<^verbatim>\<open>foo.openai.azure.com/\<close>, which does not parse, and the portal
  URL.
\<close>

theorem parseAzureEndpoint_baseUrl_shape_witness:
  "URL_new example_platform ''foo.openai.azure.com/'' = None
   \<and> endsWith (baseUrl (parseAzureEndpoint example_platform ''foo.openai.azure.com/''
                  hardcoded_defaults)) ''/openai''
   \<and> URL_new example_platform portal_input = Some portal_url
   \<and> baseUrl (parseAzureEndpoint example_platform portal_input hardcoded_defaults)
       = ''https://foo.openai.azure.com/openai''
   \<and> endsWith (baseUrl (parseAzureEndpoint example_platform portal_input hardcoded_defaults))
        ''/openai''"
proof -
  let ?segs = "[''openai'', ''deployments'', ''gpt-5'', ''chat'', ''completions'']"
  note t = parseAzureEndpoint_baseUrl_shape
  have n: "URL_new example_platform ''foo.openai.azure.com/'' = None"
    by (simp add: URL_new_def has_scheme_def url_preprocess_def c0_or_space_def
        tab_or_newline_def ascii_alpha_def scheme_char_def)
  from t [of example_platform "''foo.openai.azure.com/''" hardcoded_defaults] n
  have 1: "endsWith (baseUrl (parseAzureEndpoint example_platform ''foo.openai.azure.com/''
                  hardcoded_defaults)) ''/openai''"
    by blast
  have h: "URL_new example_platform portal_input = Some portal_url
      \<and> url_path portal_url = Segments ?segs
      \<and> parsed_path (url_scheme portal_url) ?segs \<and> url_fragment portal_url = None"
    by (simp add: example_URL_new portal_url_def parsed_examples)
  from t [of example_platform portal_input hardcoded_defaults] h
  have 2: "baseUrl (parseAzureEndpoint example_platform portal_input hardcoded_defaults)
      = toString (portal_url\<lparr>url_path := Segments (kept_segments ?segs),
                        url_query := None, url_params := []\<rparr>)"
    and 3: "endsWith (baseUrl (parseAzureEndpoint example_platform portal_input
        hardcoded_defaults)) ''/openai''"
    by blast+
  from 2 have 4: "baseUrl (parseAzureEndpoint example_platform portal_input hardcoded_defaults)
       = ''https://foo.openai.azure.com/openai''"
    by (simp add: kept_segments_def toString_def pathname_def portal_url_def)
  from n 1 example_URL_new(1) 4 3 show ?thesis by blast
qed

text \<open>
  Claim C2, as stated, fails. (1) The input \<^verbatim>\<open>foo.openai.azure.com/openai/deployments/gpt-5\<close>
  has no scheme; the \<^verbatim>\<open>catch\<close> branch appends \<^verbatim>\<open>/openai\<close> to it, and the result holds two
  \<^verbatim>\<open>openai\<close> components. (2) The input \<^verbatim>\<open>https://foo.openai.azure.com/openai#a//\<close> keeps
  its fragment, one trailing slash of which is stripped: the result ends in a slash.
\<close>

theorem parseAzureEndpoint_baseUrl_shape_fails:
  "URL_new example_platform ''foo.openai.azure.com/openai/deployments/gpt-5'' = None
   \<and> baseUrl (parseAzureEndpoint example_platform
                ''foo.openai.azure.com/openai/deployments/gpt-5'' hardcoded_defaults)
       = ''https://foo.openai.azure.com/openai/deployments/gpt-5/openai''
   \<and> count_list (str_split CHR ''/''
         ''https://foo.openai.azure.com/openai/deployments/gpt-5/openai'') ''openai'' = 2
   \<and> URL_new example_platform fragment_input = Some fragment_url
   \<and> baseUrl (parseAzureEndpoint example_platform fragment_input hardcoded_defaults)
       = ''https://foo.openai.azure.com/openai#a/''
   \<and> endsWith ''https://foo.openai.azure.com/openai#a/'' ''/''"
proof -
  have n: "URL_new example_platform ''foo.openai.azure.com/openai/deployments/gpt-5'' = None"
    by (simp add: URL_new_def has_scheme_def url_preprocess_def c0_or_space_def
        tab_or_newline_def ascii_alpha_def scheme_char_def)
  have c: "baseUrl (parseAzureEndpoint example_platform
                ''foo.openai.azure.com/openai/deployments/gpt-5'' hardcoded_defaults)
       = ''https://foo.openai.azure.com/openai/deployments/gpt-5/openai''"
    by (simp add: parseAzureEndpoint_catch [OF n] strip_trailing_slash_def startsWith_def
        endsWith_def)
  have k: "count_list (str_split CHR ''/''
         ''https://foo.openai.azure.com/openai/deployments/gpt-5/openai'') ''openai'' = 2"
    by simp
  have p: "url_path fragment_url = Segments [''openai'']"
    and w: "parsed_path (url_scheme fragment_url) [''openai'']"
    by (simp_all add: fragment_url_def parsed_examples)
  have f: "baseUrl (parseAzureEndpoint example_platform fragment_input hardcoded_defaults)
       = ''https://foo.openai.azure.com/openai#a/''"
    unfolding parseAzureEndpoint_try [OF example_URL_new(4) p w]
    by (simp add: kept_segments_def toString_def pathname_def fragment_url_def
        strip_trailing_slash_def)
  have e: "endsWith ''https://foo.openai.azure.com/openai#a/'' ''/''"
    by (simp add: endsWith_def)
  from n c k example_URL_new(4) f e show ?thesis by blast
qed

end
